theory Spec2Isabelle
  imports Complex_Main
begin

section \<open>JavaScript values used by the checkout backend\<close>

text \<open>
  The backend is TypeScript on Node. A JavaScript number is an IEEE 754 double: a finite
  double is given by the rational it denotes (\<open>Fin\<close>; the two zeros are both \<open>Fin 0\<close>),
  and there are the two infinities and NaN. Every arithmetic operation computes the exact
  result and rounds it to the nearest double, ties to the even significand.

  A string is the sequence of the bytes of its UTF-8 encoding.
\<close>

datatype number = Fin rat | PInf | NInf | NaN

subsection \<open>Rounding to a double\<close>

text \<open>The number of binary digits of a positive integer.\<close>

function bit_length :: "int \<Rightarrow> int" where
  "bit_length n = (if n \<le> 0 then 0 else 1 + bit_length (n div 2))"
  by pat_completeness auto
termination
  by (relation "measure nat") auto

declare bit_length.simps [simp del]

text \<open>The exponent \<open>e\<close> with \<open>2^e \<le> |x| < 2^(e+1)\<close>, for \<open>x\<close> other than 0.\<close>

definition ilog2 :: "rat \<Rightarrow> int" where
  "ilog2 x =
     (let (p, q) = quotient_of x;
          d = bit_length \<bar>p\<bar> - bit_length q
      in if 2 powi d \<le> \<bar>x\<bar> then d else d - 1)"

text \<open>The nearest integer, a tie going to the even one.\<close>

definition round_even :: "rat \<Rightarrow> int" where
  "round_even m =
     (let f = \<lfloor>m\<rfloor>; r = m - of_int f
      in if r < 1 / 2 then f else if 1 / 2 < r then f + 1 else if even f then f else f + 1)"

text \<open>
  The double nearest to an exact result. A double has 53 significant bits, so with
  exponent \<open>e\<close> it is a multiple of \<open>2^(e-52)\<close>; below \<open>2^-1022\<close> the doubles are the
  multiples of \<open>2^-1074\<close>; a result that rounds to \<open>2^1024\<close> or beyond is an infinity
  (which can only happen from exponent 1023 on).
\<close>

definition to_double :: "rat \<Rightarrow> number" where
  "to_double x =
     (if x = 0 then Fin 0
      else let e = max (ilog2 x) (- 1022);
               q = 2 powi (e - 52);
               y = of_int (round_even (x / q)) * q
           in if e < 1023 then Fin y
              else if 2 ^ 1024 \<le> \<bar>y\<bar> then (if 0 < x then PInf else NInf)
              else Fin y)"

subsection \<open>The operations the code uses\<close>

text \<open>\<^verbatim>\<open>a * b\<close>\<close>

fun js_times :: "number \<Rightarrow> number \<Rightarrow> number" where
  "js_times (Fin x) (Fin y) = to_double (x * y)"
| "js_times NaN _ = NaN"
| "js_times _ NaN = NaN"
| "js_times (Fin x) PInf = (if x = 0 then NaN else if 0 < x then PInf else NInf)"
| "js_times (Fin x) NInf = (if x = 0 then NaN else if 0 < x then NInf else PInf)"
| "js_times PInf (Fin y) = (if y = 0 then NaN else if 0 < y then PInf else NInf)"
| "js_times NInf (Fin y) = (if y = 0 then NaN else if 0 < y then NInf else PInf)"
| "js_times PInf PInf = PInf"
| "js_times PInf NInf = NInf"
| "js_times NInf PInf = NInf"
| "js_times NInf NInf = PInf"

text \<open>\<^verbatim>\<open>a - b\<close>\<close>

fun js_minus :: "number \<Rightarrow> number \<Rightarrow> number" where
  "js_minus (Fin x) (Fin y) = to_double (x - y)"
| "js_minus NaN _ = NaN"
| "js_minus _ NaN = NaN"
| "js_minus (Fin x) PInf = NInf"
| "js_minus (Fin x) NInf = PInf"
| "js_minus PInf (Fin y) = PInf"
| "js_minus NInf (Fin y) = NInf"
| "js_minus PInf PInf = NaN"
| "js_minus PInf NInf = PInf"
| "js_minus NInf PInf = NInf"
| "js_minus NInf NInf = NaN"

text \<open>\<^verbatim>\<open>a / 100\<close>, the only division in the code.\<close>

fun js_divide_100 :: "number \<Rightarrow> number" where
  "js_divide_100 (Fin x) = to_double (x / 100)"
| "js_divide_100 d = d"

text \<open>
  \<^verbatim>\<open>Math.round(a)\<close>: the integer nearest to the double itself, a tie going up. The result
  is a double: below \<open>2^52\<close> every integer is one, and from there on every double is an
  integer.
\<close>

fun Math_round :: "number \<Rightarrow> number" where
  "Math_round (Fin x) = Fin (of_int \<lfloor>x + 1 / 2\<rfloor>)"
| "Math_round d = d"

text \<open>\<^verbatim>\<open>a > 0\<close>, and whether a number is truthy.\<close>

definition gt0 :: "number \<Rightarrow> bool" where
  "gt0 d = (case d of Fin x \<Rightarrow> 0 < x | PInf \<Rightarrow> True | NInf \<Rightarrow> False | NaN \<Rightarrow> False)"

definition truthy :: "number \<Rightarrow> bool" where
  "truthy d = (d \<noteq> Fin 0 \<and> d \<noteq> NaN)"

subsection \<open>Optional strings\<close>

text \<open>\<^verbatim>\<open>x || d\<close> on an optional string: an absent or empty string is falsy.\<close>

definition or_default :: "string option \<Rightarrow> string \<Rightarrow> string" where
  "or_default x d = (case x of None \<Rightarrow> d | Some s \<Rightarrow> if s = [] then d else s)"

text \<open>\<^verbatim>\<open>x || null\<close> on an optional string.\<close>

definition or_null :: "string option \<Rightarrow> string option" where
  "or_null x = (case x of None \<Rightarrow> None | Some s \<Rightarrow> if s = [] then None else Some s)"

subsection \<open>parseInt with no radix argument\<close>

text \<open>
  ECMAScript \<^verbatim>\<open>parseInt(string)\<close>: leading white space is skipped, one sign is read, a
  prefix \<^verbatim>\<open>0x\<close> or \<^verbatim>\<open>0X\<close> selects radix 16 (radix 10 otherwise), and the longest
  prefix of digits of that radix is read as an integer; the result is the double nearest
  to that integer, or NaN when there is no digit. (ECMAScript lets an implementation
  approximate a decimal numeral beyond its 20th significant digit; Node converts it
  exactly, as here.)

  The white space of ECMAScript is TAB, LF, VT, FF, CR, SP, and beyond ASCII the code
  points U+00A0, U+1680, U+2000 to U+200A, U+2028, U+2029, U+202F, U+205F, U+3000 and
  U+FEFF, recognised here by their UTF-8 bytes. A byte A0 that stands alone, which no
  UTF-8 string has at the start of a character, is read as U+00A0 too.
\<close>

definition is_ws1 :: "char \<Rightarrow> bool" where
  "is_ws1 c = (c = CHR '' '' \<or> c = CHR 0x09 \<or> c = CHR 0x0A \<or> c = CHR 0x0B
               \<or> c = CHR 0x0C \<or> c = CHR 0x0D \<or> c = CHR 0xA0)"

definition is_ws2 :: "char \<Rightarrow> char \<Rightarrow> bool" where
  "is_ws2 a b = (a = CHR 0xC2 \<and> b = CHR 0xA0)"

definition is_ws3 :: "char \<Rightarrow> char \<Rightarrow> char \<Rightarrow> bool" where
  "is_ws3 a b c =
     ((a = CHR 0xE1 \<and> b = CHR 0x9A \<and> c = CHR 0x80)
      \<or> (a = CHR 0xE2 \<and> b = CHR 0x80
          \<and> ((128 \<le> (of_char c :: int) \<and> (of_char c :: int) \<le> 138)
              \<or> c = CHR 0xA8 \<or> c = CHR 0xA9 \<or> c = CHR 0xAF))
      \<or> (a = CHR 0xE2 \<and> b = CHR 0x81 \<and> c = CHR 0x9F)
      \<or> (a = CHR 0xE3 \<and> b = CHR 0x80 \<and> c = CHR 0x80)
      \<or> (a = CHR 0xEF \<and> b = CHR 0xBB \<and> c = CHR 0xBF))"

fun skip_ws :: "string \<Rightarrow> string" where
  "skip_ws (a # b # c # s) =
     (if is_ws1 a then skip_ws (b # c # s)
      else if is_ws2 a b then skip_ws (c # s)
      else if is_ws3 a b c then skip_ws s
      else a # b # c # s)"
| "skip_ws [a, b] = (if is_ws1 a then skip_ws [b] else if is_ws2 a b then [] else [a, b])"
| "skip_ws [a] = (if is_ws1 a then [] else [a])"
| "skip_ws [] = []"

definition digit_val :: "char \<Rightarrow> int option" where
  "digit_val c = (let n = (of_char c :: int) in
      if 48 \<le> n \<and> n \<le> 57 then Some (n - 48)
      else if 97 \<le> n \<and> n \<le> 102 then Some (n - 87)
      else if 65 \<le> n \<and> n \<le> 70 then Some (n - 55)
      else None)"

definition is_digit :: "int \<Rightarrow> char \<Rightarrow> bool" where
  "is_digit radix c = (case digit_val c of None \<Rightarrow> False | Some d \<Rightarrow> d < radix)"

definition digits_value :: "int \<Rightarrow> string \<Rightarrow> int" where
  "digits_value radix z = foldl (\<lambda>a c. a * radix + the (digit_val c)) 0 z"

definition parseInt :: "string \<Rightarrow> number" where
  "parseInt s =
     (let s1 = skip_ws s;
          (sign, s2) = (case s1 of [] \<Rightarrow> (1::int, s1)
                        | c # r \<Rightarrow> if c = CHR ''-'' then (- 1, r)
                                   else if c = CHR ''+'' then (1, r) else (1, s1));
          (radix, s3) = (case s2 of
                           a # b # r \<Rightarrow>
                             if a = CHR ''0'' \<and> (b = CHR ''x'' \<or> b = CHR ''X'')
                             then (16::int, r) else (10, s2)
                         | _ \<Rightarrow> (10, s2));
          z = takeWhile (is_digit radix) s3
      in if z = [] then NaN else to_double (of_int (sign * digits_value radix z)))"

section \<open>Unit price of a cart item (services/stripe.ts)\<close>

record product =
  price :: number
  discount_percentage :: "number option"

record activeEvent =
  event_id :: "string option"
  event_discount_percentage :: "number option"

record cartItem =
  product :: product
  quantity :: number
  activeEvent :: "activeEvent option"

text \<open>\<^verbatim>\<open>item.activeEvent?.discount_percentage\<close>\<close>

definition activeEvent_discount :: "cartItem \<Rightarrow> number option" where
  "activeEvent_discount item =
     (case activeEvent item of None \<Rightarrow> None | Some ev \<Rightarrow> event_discount_percentage ev)"

text \<open>\<^verbatim>\<open>d && d > 0\<close> on an optional number, used as a condition.\<close>

definition positive :: "number option \<Rightarrow> bool" where
  "positive d = (case d of None \<Rightarrow> False | Some v \<Rightarrow> truthy v \<and> gt0 v)"

definition calculateUnitPrice :: "cartItem \<Rightarrow> number" where
  "calculateUnitPrice item =
     (let basePrice = price (product item);
          productDiscount = positive (discount_percentage (product item));
          eventDiscount = positive (activeEvent_discount item);
          discountPercentage =
            (if productDiscount then discount_percentage (product item)
             else if eventDiscount then activeEvent_discount item else Some (Fin 0))
      in if positive discountPercentage
         then Math_round (js_times basePrice
                (js_minus (Fin 1) (js_divide_100 (the discountPercentage))))
         else basePrice)"

text \<open>An absent percentage counts as 0.\<close>

definition pct :: "number option \<Rightarrow> number" where
  "pct d = (case d of None \<Rightarrow> Fin 0 | Some v \<Rightarrow> v)"

text \<open>
  The rule as the specification words it, for comparison: in exact arithmetic, and with
  every branch rounded to the nearest integer.
\<close>

definition nearest_integer :: "rat \<Rightarrow> rat" where
  "nearest_integer x = of_int \<lfloor>x + 1 / 2\<rfloor>"

definition spec_unit_price :: "rat \<Rightarrow> rat \<Rightarrow> rat \<Rightarrow> rat" where
  "spec_unit_price basePrice productDiscount eventDiscount =
     (if 0 < productDiscount then nearest_integer (basePrice * (1 - productDiscount / 100))
      else if 0 < eventDiscount then nearest_integer (basePrice * (1 - eventDiscount / 100))
      else nearest_integer basePrice)"

section \<open>Orders, the order store and the external services\<close>

text \<open>
  \<^verbatim>\<open>ShippingInfo\<close> and \<^verbatim>\<open>OrderData\<close> of types/checkout.ts. An order row of the store is
  the inserted \<^verbatim>\<open>OrderData\<close> with the id the store assigned. The ids are UUIDs in the
  database; here the store numbers the rows.
\<close>

record shippingInfo =
  fullName :: string
  email :: string
  phone :: string
  address :: string
  city :: string
  postalCode :: string
  country :: string

record orderData =
  total_amount :: number
  currency :: string
  shipping :: shippingInfo
  status :: string
  discount_code :: "string option"
  discount_amount :: number
  stripe_session_id :: "string option"
  payment_method :: string

record order_row =
  order_id :: nat
  odata :: orderData

text \<open>One element of the JSON array in \<^verbatim>\<open>metadata.items\<close>, and \<^verbatim>\<open>OrderItemData\<close>.\<close>

record metaItem =
  mi_product_id :: string
  mi_quantity :: rat
  mi_unit_price :: rat

record orderItemData =
  oi_order_id :: nat
  oi_product_id :: string
  oi_quantity :: rat
  oi_unit_price :: rat

text \<open>
  An order as the handlers hold it: the row, and the \<^verbatim>\<open>order_items\<close> property, which is
  present on the result of \<^verbatim>\<open>getOrderBySessionId\<close> and \<^verbatim>\<open>getOrderById\<close> (they select the
  row with its items embedded) and absent on the result of \<^verbatim>\<open>createOrder\<close> (which selects
  the inserted row alone).
\<close>

type_synonym loaded_order = "order_row \<times> orderItemData list option"

text \<open>A checkout session of the payment processor, as far as the handlers read it.\<close>

record session =
  session_id :: string
  payment_status :: string
  metadata :: "(string \<rightharpoonup> string) option"
  customer_email :: "string option"

record event =
  event_type :: string
  event_session :: session

text \<open>One call of \<^verbatim>\<open>sendPurchaseConfirmationEmail(order, sessionId)\<close>.\<close>

record email_call =
  mail_order :: loaded_order
  mail_session :: string
  mail_sent :: bool

text \<open>
  The state the handlers act on: the two tables, the id the store assigns next, whether the
  database declares \<^verbatim>\<open>stripe_session_id\<close> unique (the schema is not part of the
  repository, so both are considered), and the log of the confirmation emails asked for.
\<close>

record world =
  orders :: "order_row list"
  order_items :: "orderItemData list"
  next_id :: nat
  unique_sessions :: bool
  emails :: "email_call list"

text \<open>
  What the outside decides during one request: the answer of the payment processor to
  \<^verbatim>\<open>retrieveCheckoutSession\<close> (None: it throws), the result of \<^verbatim>\<open>JSON.parse\<close> on the
  items string followed by \<^verbatim>\<open>.map\<close> (None: one of them throws), and which calls to the
  database or the mail service fail.
\<close>

record ext =
  stripe_session :: "string \<Rightarrow> session option"
  json_items :: "string \<Rightarrow> metaItem list option"
  lookup_fails :: bool
  insert_order_fails :: bool
  insert_items_fails :: bool
  fetch_fails :: bool
  update_fails :: bool
  email_fails :: bool

text \<open>
  The errors the services throw, and the responses of the two routes: 200 with the
  existing order, 200 with the created order, 200 \<^verbatim>\<open>{received: true}\<close>, 400 with a fixed
  message, 500 with the message of the error (create-order-from-session), and 400
  \<^verbatim>\<open>Webhook Error: ...\<close> with the message of the error (webhook).
\<close>

datatype failure = CreateOrderFailed | UpdateStatusFailed | RetrieveSessionFailed

datatype response =
    OrderAlreadyCreated loaded_order
  | OrderCreated loaded_order
  | Received
  | BadRequest string
  | ServerError failure
  | WebhookError failure

subsection \<open>services/supabase.ts\<close>

text \<open>
  Each function is one call to the database. When the call reports an error the two
  getters return null and the other functions throw. The tables are lists of rows in
  insertion order; an update with \<^verbatim>\<open>.eq('id', ...)\<close> acts on the rows with that id, and
  a database that declares \<^verbatim>\<open>stripe_session_id\<close> unique rejects a write that would give
  two rows the same session id.
\<close>

definition rows_of_session :: "world \<Rightarrow> string \<Rightarrow> order_row list" where
  "rows_of_session w sid = filter (\<lambda>r. stripe_session_id (odata r) = Some sid) (orders w)"

definition rows_of_id :: "world \<Rightarrow> nat \<Rightarrow> order_row list" where
  "rows_of_id w i = filter (\<lambda>r. order_id r = i) (orders w)"

definition items_of_order :: "world \<Rightarrow> nat \<Rightarrow> orderItemData list" where
  "items_of_order w i = filter (\<lambda>it. oi_order_id it = i) (order_items w)"

text \<open>\<^verbatim>\<open>.single()\<close> reports an error unless exactly one row is selected.\<close>

definition single :: "'a list \<Rightarrow> 'a option" where
  "single rs = (case rs of [r] \<Rightarrow> Some r | _ \<Rightarrow> None)"

definition with_items :: "world \<Rightarrow> order_row \<Rightarrow> loaded_order" where
  "with_items w r = (r, Some (items_of_order w (order_id r)))"

definition getOrderBySessionId :: "ext \<Rightarrow> world \<Rightarrow> string \<Rightarrow> loaded_order option" where
  "getOrderBySessionId x w sid =
     (if lookup_fails x then None
      else map_option (with_items w) (single (rows_of_session w sid)))"

definition getOrderById :: "ext \<Rightarrow> world \<Rightarrow> nat \<Rightarrow> loaded_order option" where
  "getOrderById x w i =
     (if fetch_fails x then None
      else map_option (with_items w) (single (rows_of_id w i)))"

definition session_taken :: "world \<Rightarrow> string option \<Rightarrow> bool" where
  "session_taken w s =
     (case s of None \<Rightarrow> False
      | Some sid \<Rightarrow> list_ex (\<lambda>r. stripe_session_id (odata r) = Some sid) (orders w))"

definition createOrder :: "ext \<Rightarrow> world \<Rightarrow> orderData \<Rightarrow> failure + loaded_order \<times> world" where
  "createOrder x w od =
     (if insert_order_fails x \<or> (unique_sessions w \<and> session_taken w (stripe_session_id od))
      then Inl CreateOrderFailed
      else let r = \<lparr>order_id = next_id w, odata = od\<rparr>
           in Inr ((r, None), w\<lparr>orders := orders w @ [r], next_id := Suc (next_id w)\<rparr>))"

definition addOrderItems :: "ext \<Rightarrow> world \<Rightarrow> orderItemData list \<Rightarrow> world option" where
  "addOrderItems x w its =
     (if insert_items_fails x then None
      else Some (w\<lparr>order_items := order_items w @ its\<rparr>))"

definition updateData :: "string \<Rightarrow> string \<Rightarrow> orderData \<Rightarrow> orderData" where
  "updateData st stripeSessionId od =
     (if stripeSessionId \<noteq> [] then od\<lparr>status := st, stripe_session_id := Some stripeSessionId\<rparr>
      else od\<lparr>status := st\<rparr>)"

definition session_taken_by_other :: "world \<Rightarrow> nat \<Rightarrow> string \<Rightarrow> bool" where
  "session_taken_by_other w i sid =
     list_ex (\<lambda>r. order_id r \<noteq> i \<and> stripe_session_id (odata r) = Some sid) (orders w)"

definition updateOrderStatus :: "ext \<Rightarrow> world \<Rightarrow> nat \<Rightarrow> string \<Rightarrow> string \<Rightarrow> failure + world" where
  "updateOrderStatus x w i st stripeSessionId =
     (if update_fails x \<or> single (rows_of_id w i) = None
         \<or> (unique_sessions w \<and> stripeSessionId \<noteq> [] \<and> session_taken_by_other w i stripeSessionId)
      then Inl UpdateStatusFailed
      else Inr (w\<lparr>orders := map (\<lambda>r. if order_id r = i
                                      then r\<lparr>odata := updateData st stripeSessionId (odata r)\<rparr>
                                      else r) (orders w)\<rparr>))"

subsection \<open>services/email.ts\<close>

text \<open>
  \<^verbatim>\<open>sendPurchaseConfirmationEmail\<close> throws when the order has no shipping email or when
  the mail service fails; the lines of the mail are the \<^verbatim>\<open>order_items\<close> of the order it is
  given (\<^verbatim>\<open>No items\<close> when the property is absent or empty).
\<close>

definition sendPurchaseConfirmationEmail :: "ext \<Rightarrow> world \<Rightarrow> loaded_order \<Rightarrow> string \<Rightarrow> bool \<times> world" where
  "sendPurchaseConfirmationEmail x w order sid =
     (let ok = (\<not> email_fails x \<and> email (shipping (odata (fst order))) \<noteq> [])
      in (ok, w\<lparr>emails := emails w @ [\<lparr>mail_order = order, mail_session = sid, mail_sent = ok\<rparr>]\<rparr>))"

definition mail_lines :: "email_call \<Rightarrow> orderItemData list" where
  "mail_lines c = (case snd (mail_order c) of None \<Rightarrow> [] | Some its \<Rightarrow> its)"

section \<open>The checkout routes (routes/checkout.ts)\<close>

subsection \<open>Order data derived from the session metadata\<close>

text \<open>
  The checkout router is the last module in the file \<^verbatim>\<open>src/routes/users.ts\<close> of the
  sources at hand; the line numbers below are lines of that file.

  Both handlers build the shipping record, the order data and the order items in the same
  way (webhook: lines 382-409 and 422-428; create-order-from-session: lines 547-567 and
  574-580); the only difference is the session id they store, \<^verbatim>\<open>session.id\<close> or the
  \<^verbatim>\<open>sessionId\<close> of the request.
\<close>

definition shippingInfo_of :: "(string \<rightharpoonup> string) \<Rightarrow> string option \<Rightarrow> shippingInfo" where
  "shippingInfo_of md cust =
     \<lparr>fullName = or_default (md ''shipping_name'') [],
      email = or_default (md ''shipping_email'') (or_default cust []),
      phone = or_default (md ''shipping_phone'') [],
      address = or_default (md ''shipping_address'') [],
      city = or_default (md ''shipping_city'') [],
      postalCode = or_default (md ''shipping_postal_code'') [],
      country = or_default (md ''shipping_country'') []\<rparr>"

definition orderData_of :: "(string \<rightharpoonup> string) \<Rightarrow> string option \<Rightarrow> string \<Rightarrow> orderData" where
  "orderData_of md cust sid =
     \<lparr>total_amount = parseInt (or_default (md ''total'') ''0''),
      currency = or_default (md ''currency'') ''SEK'',
      shipping = shippingInfo_of md cust,
      status = ''processing'',
      discount_code = or_null (md ''discount_code''),
      discount_amount = parseInt (or_default (md ''discount_amount'') ''0''),
      stripe_session_id = Some sid,
      payment_method = ''stripe''\<rparr>"

definition orderItems_of :: "nat \<Rightarrow> metaItem list \<Rightarrow> orderItemData list" where
  "orderItems_of i its =
     map (\<lambda>it. \<lparr>oi_order_id = i, oi_product_id = mi_product_id it,
                oi_quantity = mi_quantity it, oi_unit_price = mi_unit_price it\<rparr>) its"

definition itemsData :: "ext \<Rightarrow> (string \<rightharpoonup> string) \<Rightarrow> metaItem list option" where
  "itemsData x md = json_items x (or_default (md ''items'') ''[]'')"

subsection \<open>POST /api/checkout/webhook\<close>

text \<open>The order-items step (lines 421-434): any exception is logged and dropped.\<close>

definition webhook_items :: "ext \<Rightarrow> world \<Rightarrow> (string \<rightharpoonup> string) \<Rightarrow> loaded_order \<Rightarrow> world" where
  "webhook_items x w md order =
     (case itemsData x md of None \<Rightarrow> w
      | Some its \<Rightarrow>
          (case addOrderItems x w (orderItems_of (order_id (fst order)) its) of
             None \<Rightarrow> w | Some w' \<Rightarrow> w'))"

text \<open>The email step (lines 437-450): any exception is logged and dropped.\<close>

definition webhook_email :: "ext \<Rightarrow> world \<Rightarrow> loaded_order \<Rightarrow> string \<Rightarrow> world" where
  "webhook_email x w order sid =
     (if email (shipping (odata (fst order))) = [] then w
      else snd (sendPurchaseConfirmationEmail x w order sid))"

text \<open>
  \<^verbatim>\<open>checkout.session.completed\<close> with a paid session, from the point where
  \<^verbatim>\<open>getOrderBySessionId\<close> has answered \<open>existing\<close> (lines 372-457). The result is the
  exception that leaves the \<^verbatim>\<open>switch\<close>, if any, and the store.
\<close>

definition completed_after_lookup ::
  "ext \<Rightarrow> world \<Rightarrow> session \<Rightarrow> loaded_order option \<Rightarrow> failure option \<times> world" where
  "completed_after_lookup x w s existing =
     (case existing of
        None \<Rightarrow>
          (case metadata s of
             None \<Rightarrow> (None, w)
           | Some md \<Rightarrow>
               (case createOrder x w (orderData_of md (customer_email s) (session_id s)) of
                  Inl e \<Rightarrow> (Some e, w)
                | Inr (order, w1) \<Rightarrow>
                    (None, webhook_email x (webhook_items x w1 md order) order (session_id s))))
      | Some order \<Rightarrow>
          (if status (odata (fst order)) \<noteq> ''processing''
           then (case updateOrderStatus x w (order_id (fst order)) ''processing'' (session_id s) of
                   Inl e \<Rightarrow> (Some e, w) | Inr w1 \<Rightarrow> (None, w1))
           else (None, w)))"

definition webhook_completed :: "ext \<Rightarrow> world \<Rightarrow> session \<Rightarrow> failure option \<times> world" where
  "webhook_completed x w s =
     (if payment_status s = ''paid''
      then completed_after_lookup x w s (getOrderBySessionId x w (session_id s))
      else (None, w))"

text \<open>
  \<^verbatim>\<open>checkout.session.async_payment_succeeded\<close> and \<^verbatim>\<open>async_payment_failed\<close> (lines
  463-487) differ in the status they write.
\<close>

definition webhook_async :: "ext \<Rightarrow> world \<Rightarrow> session \<Rightarrow> string \<Rightarrow> failure option \<times> world" where
  "webhook_async x w s st =
     (case getOrderBySessionId x w (session_id s) of
        None \<Rightarrow> (None, w)
      | Some order \<Rightarrow>
          (case updateOrderStatus x w (order_id (fst order)) st (session_id s) of
             Inl e \<Rightarrow> (Some e, w) | Inr w1 \<Rightarrow> (None, w1)))"

definition webhook_switch :: "ext \<Rightarrow> world \<Rightarrow> event \<Rightarrow> failure option \<times> world" where
  "webhook_switch x w ev =
     (if event_type ev = ''checkout.session.completed''
        then webhook_completed x w (event_session ev)
      else if event_type ev = ''checkout.session.async_payment_succeeded''
        then webhook_async x w (event_session ev) ''processing''
      else if event_type ev = ''checkout.session.async_payment_failed''
        then webhook_async x w (event_session ev) ''pending''
      else (None, w))"

definition webhook :: "ext \<Rightarrow> world \<Rightarrow> event option \<Rightarrow> response \<times> world" where
  "webhook x w body =
     (case body of
        None \<Rightarrow> (BadRequest ''Invalid webhook event'', w)
      | Some ev \<Rightarrow>
          if event_type ev = [] then (BadRequest ''Invalid webhook event'', w)
          else (case webhook_switch x w ev of
                  (None, w') \<Rightarrow> (Received, w')
                | (Some e, w') \<Rightarrow> (WebhookError e, w')))"

subsection \<open>POST /api/checkout/create-order-from-session\<close>

text \<open>
  The order-items step (lines 573-593): after the insert the order is fetched again with
  its items; any exception is logged and dropped.
\<close>

definition callback_items ::
  "ext \<Rightarrow> world \<Rightarrow> (string \<rightharpoonup> string) \<Rightarrow> loaded_order \<Rightarrow> loaded_order \<times> world" where
  "callback_items x w md order =
     (case itemsData x md of None \<Rightarrow> (order, w)
      | Some its \<Rightarrow>
          (case addOrderItems x w (orderItems_of (order_id (fst order)) its) of
             None \<Rightarrow> (order, w)
           | Some w' \<Rightarrow>
               (case getOrderById x w' (order_id (fst order)) of
                  None \<Rightarrow> (order, w') | Some fullOrder \<Rightarrow> (fullOrder, w'))))"

text \<open>The email step (lines 596-611).\<close>

definition callback_email :: "ext \<Rightarrow> world \<Rightarrow> loaded_order \<Rightarrow> session \<Rightarrow> string \<Rightarrow> world" where
  "callback_email x w order s sid =
     (if or_default (Some (email (shipping (odata (fst order))))) (or_default (customer_email s) []) = []
      then w
      else snd (sendPurchaseConfirmationEmail x w order sid))"

text \<open>
  The handler from the point where \<^verbatim>\<open>getOrderBySessionId\<close> has answered \<open>existing\<close>
  (lines 519-617, with the \<^verbatim>\<open>catch\<close> of lines 618-624).
\<close>

definition callback_after_lookup ::
  "ext \<Rightarrow> world \<Rightarrow> string \<Rightarrow> loaded_order option \<Rightarrow> response \<times> world" where
  "callback_after_lookup x w sid existing =
     (case existing of
        Some existingOrder \<Rightarrow> (OrderAlreadyCreated existingOrder, w)
      | None \<Rightarrow>
          (case stripe_session x sid of
             None \<Rightarrow> (ServerError RetrieveSessionFailed, w)
           | Some s \<Rightarrow>
               if payment_status s \<noteq> ''paid'' then (BadRequest ''Payment not completed'', w)
               else (case metadata s of
                       None \<Rightarrow> (BadRequest ''Missing order data in session'', w)
                     | Some md \<Rightarrow>
                         (case createOrder x w (orderData_of md (customer_email s) sid) of
                            Inl e \<Rightarrow> (ServerError e, w)
                          | Inr (order0, w1) \<Rightarrow>
                              (case callback_items x w1 md order0 of
                                 (order, w2) \<Rightarrow>
                                   (OrderCreated order, callback_email x w2 order s sid))))))"

definition create_order_from_session :: "ext \<Rightarrow> world \<Rightarrow> string option \<Rightarrow> response \<times> world" where
  "create_order_from_session x w body =
     (case or_null body of
        None \<Rightarrow> (BadRequest ''Session ID is required'', w)
      | Some sid \<Rightarrow> callback_after_lookup x w sid (getOrderBySessionId x w sid))"

subsection \<open>Requests handled one after another\<close>

datatype request = Webhook "event option" | CreateOrderFromSession "string option"

fun handle :: "ext \<Rightarrow> world \<Rightarrow> request \<Rightarrow> response \<times> world" where
  "handle x w (Webhook body) = webhook x w body"
| "handle x w (CreateOrderFromSession body) = create_order_from_session x w body"

fun run :: "world \<Rightarrow> (ext \<times> request) list \<Rightarrow> world" where
  "run w [] = w"
| "run w ((x, r) # rs) = run (snd (handle x w r)) rs"

section \<open>Properties of the store and example data\<close>

text \<open>
  The store's own guarantees: \<^verbatim>\<open>id\<close> is the primary key of \<^verbatim>\<open>orders\<close> and is assigned
  from a fresh supply, and every order item refers to an id that has been assigned.
\<close>

definition ids_fresh :: "world \<Rightarrow> bool" where
  "ids_fresh w = (distinct (map order_id (orders w))
                  \<and> list_all (\<lambda>r. order_id r < next_id w) (orders w)
                  \<and> list_all (\<lambda>it. oi_order_id it < next_id w) (order_items w))"

text \<open>The session ids present in the \<^verbatim>\<open>orders\<close> table, one entry per row that has one.\<close>

definition session_keys :: "world \<Rightarrow> string list" where
  "session_keys w = List.map_filter (\<lambda>r. stripe_session_id (odata r)) (orders w)"

text \<open>At most one order per session id.\<close>

definition store_ok :: "world \<Rightarrow> bool" where
  "store_ok w = (ids_fresh w \<and> distinct (session_keys w))"

text \<open>The order items that belong to the orders of a session.\<close>

definition items_of_session :: "world \<Rightarrow> string \<Rightarrow> orderItemData list" where
  "items_of_session w sid =
     filter (\<lambda>it. oi_order_id it \<in> set (map order_id (rows_of_session w sid))) (order_items w)"

text \<open>A \<^verbatim>\<open>checkout.session.completed\<close> event carrying the session \<open>s\<close>.\<close>

definition completed :: "session \<Rightarrow> event" where
  "completed s = \<lparr>event_type = ''checkout.session.completed'', event_session = s\<rparr>"

text \<open>
  A payment signal for a session that has no order yet, as a lookup sees it: the session
  \<open>s\<close> with id \<open>sid\<close> is paid and carries the metadata \<open>md\<close>; it is the session the
  webhook delivers and the one the payment processor reports on retrieval.
\<close>

definition fresh_paid_signal ::
  "ext \<Rightarrow> world \<Rightarrow> string \<Rightarrow> session \<Rightarrow> (string \<rightharpoonup> string) \<Rightarrow> bool" where
  "fresh_paid_signal x w sid s md =
     (sid \<noteq> [] \<and> getOrderBySessionId x w sid = None \<and> stripe_session x sid = Some s
      \<and> session_id s = sid \<and> payment_status s = ''paid'' \<and> metadata s = Some md)"

text \<open>What the order-items step writes for the order \<open>i\<close>: the parsed items, or nothing.\<close>

definition items_written :: "ext \<Rightarrow> (string \<rightharpoonup> string) \<Rightarrow> nat \<Rightarrow> orderItemData list" where
  "items_written x md i =
     (case itemsData x md of None \<Rightarrow> []
      | Some its \<Rightarrow> if insert_items_fails x then [] else orderItems_of i its)"

text \<open>
  Example data: the scenario of a cart of two units at 900 with shipping 49, total 1849.
\<close>

definition demo_items_json :: string where
  \<open>demo_items_json = ''[{"product_id":"p1","quantity":2,"unit_price":900}]''\<close>

definition demo_json :: "string \<Rightarrow> metaItem list option" where
  "demo_json s = (if s = ''[]'' then Some []
                  else if s = demo_items_json
                  then Some [\<lparr>mi_product_id = ''p1'', mi_quantity = 2, mi_unit_price = 900\<rparr>]
                  else None)"

definition demo_md :: "string \<rightharpoonup> string" where
  "demo_md = [''shipping_name'' \<mapsto> ''Ada'', ''shipping_email'' \<mapsto> ''ada@example.com'',
              ''total'' \<mapsto> ''1849'', ''currency'' \<mapsto> ''SEK'', ''items'' \<mapsto> demo_items_json]"

definition demo_session :: "string \<Rightarrow> string \<Rightarrow> session" where
  "demo_session sid st =
     \<lparr>session_id = sid, payment_status = st, metadata = Some demo_md, customer_email = None\<rparr>"

text \<open>No call fails; the payment processor reports every session with status \<open>st\<close>.\<close>

definition quiet :: "string \<Rightarrow> ext" where
  "quiet st = \<lparr>stripe_session = (\<lambda>sid. Some (demo_session sid st)), json_items = demo_json,
              lookup_fails = False, insert_order_fails = False, insert_items_fails = False,
              fetch_fails = False, update_fails = False, email_fails = False\<rparr>"

definition empty_store :: "bool \<Rightarrow> world" where
  "empty_store u = \<lparr>orders = [], order_items = [], next_id = 0, unique_sessions = u, emails = []\<rparr>"

text \<open>A store holding one order of session \<open>sid\<close> with status \<open>st\<close> and its item.\<close>

definition demo_row :: "string \<Rightarrow> string \<Rightarrow> order_row" where
  "demo_row sid st = \<lparr>order_id = 0, odata = (orderData_of demo_md None sid)\<lparr>status := st\<rparr>\<rparr>"

definition demo_store :: "string \<Rightarrow> string \<Rightarrow> bool \<Rightarrow> world" where
  "demo_store sid st u =
     \<lparr>orders = [demo_row sid st],
      order_items = [\<lparr>oi_order_id = 0, oi_product_id = ''p1'', oi_quantity = 2, oi_unit_price = 900\<rparr>],
      next_id = 1, unique_sessions = u, emails = []\<rparr>"

text \<open>The two tables of the store, without the log of emails.\<close>

definition tables :: "world \<Rightarrow> order_row list \<times> orderItemData list" where
  "tables w = (orders w, order_items w)"

text \<open>Metadata whose amounts are fractional, and metadata that carries no amounts.\<close>

definition fraction_md :: "string \<rightharpoonup> string" where
  "fraction_md = [''shipping_email'' \<mapsto> ''ada@example.com'', ''total'' \<mapsto> ''1849.5'',
                  ''discount_amount'' \<mapsto> ''1849.5'']"

definition bare_md :: "string \<rightharpoonup> string" where
  "bare_md = [''shipping_email'' \<mapsto> ''ada@example.com'', ''discount_amount'' \<mapsto> '''']"

definition session_with :: "(string \<rightharpoonup> string) \<Rightarrow> string \<Rightarrow> session" where
  "session_with md sid =
     \<lparr>session_id = sid, payment_status = ''paid'', metadata = Some md, customer_email = None\<rparr>"

definition quiet_with :: "(string \<rightharpoonup> string) \<Rightarrow> ext" where
  "quiet_with md = (quiet ''paid'')\<lparr>stripe_session := (\<lambda>sid. Some (session_with md sid))\<rparr>"

text \<open>The orders table after the status of the rows with id \<open>i\<close> has been set to \<open>st\<close>.\<close>

definition set_status :: "nat \<Rightarrow> string \<Rightarrow> order_row list \<Rightarrow> order_row list" where
  "set_status i st rs =
     map (\<lambda>r. if order_id r = i then r\<lparr>odata := (odata r)\<lparr>status := st\<rparr>\<rparr> else r) rs"

text \<open>The statuses the handlers write, and the rows a request may leave behind: rows that
  were there before, or rows whose status is one of those.\<close>

definition written_status :: "string \<Rightarrow> bool" where
  "written_status st = (st = ''processing'' \<or> st = ''pending'')"

definition writes_only :: "world \<Rightarrow> world \<Rightarrow> bool" where
  "writes_only w w' =
     list_all (\<lambda>r. r \<in> set (orders w) \<or> written_status (status (odata r))) (orders w')"

text \<open>
  The store after one create-order-from-session request for the session \<^verbatim>\<open>cs_2\<close> has run
  to its end on the empty store.
\<close>

definition race_store :: "bool \<Rightarrow> world" where
  "race_store u = snd (create_order_from_session (quiet ''paid'') (empty_store u) (Some ''cs_2''))"

text \<open>
  The store after a second create-order-from-session request for \<^verbatim>\<open>cs_2\<close>, which had
  looked the order up on the empty store, has continued on it: without a uniqueness
  constraint it holds two orders of the session.
\<close>

definition doubled_store :: world where
  "doubled_store =
     snd (callback_after_lookup (quiet ''paid'') (race_store False) ''cs_2''
            (getOrderBySessionId (quiet ''paid'') (empty_store False) ''cs_2''))"

text \<open>A \<^verbatim>\<open>checkout.session.async_payment_failed\<close> event carrying the session \<open>s\<close>.\<close>

definition async_failed :: "session \<Rightarrow> event" where
  "async_failed s = \<lparr>event_type = ''checkout.session.async_payment_failed'', event_session = s\<rparr>"

text \<open>
  What one request does to the tables, seen from outside: nothing; or the status of the
  order of a session is set; or an order is appended for a session that had none, with
  the items the order-items step wrote for it.
\<close>

inductive step :: "ext \<Rightarrow> world \<Rightarrow> world \<Rightarrow> bool" for x w where
  same: "orders w' = orders w \<Longrightarrow> order_items w' = order_items w \<Longrightarrow> next_id w' = next_id w
         \<Longrightarrow> step x w w'"
| restatus: "rows_of_session w sid = [r] \<Longrightarrow> orders w' = set_status (order_id r) st (orders w)
         \<Longrightarrow> order_items w' = order_items w \<Longrightarrow> next_id w' = next_id w
         \<Longrightarrow> step x w w'"
| create: "rows_of_session w sid = []
         \<Longrightarrow> orders w' = orders w @ [\<lparr>order_id = next_id w, odata = orderData_of md cust sid\<rparr>]
         \<Longrightarrow> order_items w' = order_items w @ items_written x md (next_id w)
         \<Longrightarrow> next_id w' = Suc (next_id w)
         \<Longrightarrow> step x w w'"

text \<open>Three requests for the same paid session, handled one after another.\<close>

definition demo_requests :: "(ext \<times> request) list" where
  "demo_requests =
     [(quiet ''paid'', CreateOrderFromSession (Some ''cs_1'')),
      (quiet ''paid'', Webhook (Some (completed (demo_session ''cs_1'' ''paid'')))),
      (quiet ''paid'', CreateOrderFromSession (Some ''cs_1''))]"

section \<open>Unfolding the model\<close>

lemmas store_defs = rows_of_session_def rows_of_id_def items_of_order_def single_def with_items_def
  getOrderBySessionId_def getOrderById_def session_taken_def createOrder_def addOrderItems_def
  updateData_def session_taken_by_other_def updateOrderStatus_def sendPurchaseConfirmationEmail_def

lemmas route_defs = or_default_def or_null_def shippingInfo_of_def orderData_of_def orderItems_of_def
  itemsData_def webhook_items_def webhook_email_def completed_after_lookup_def webhook_completed_def
  webhook_async_def webhook_switch_def webhook_def callback_items_def callback_email_def
  callback_after_lookup_def create_order_from_session_def completed_def

lemmas demo_defs = demo_items_json_def demo_json_def demo_md_def demo_session_def quiet_def
  empty_store_def demo_row_def demo_store_def

section \<open>What each step leaves unchanged\<close>

lemma send_frame:
  "orders (snd (sendPurchaseConfirmationEmail x w order sid)) = orders w"
  "order_items (snd (sendPurchaseConfirmationEmail x w order sid)) = order_items w"
  "next_id (snd (sendPurchaseConfirmationEmail x w order sid)) = next_id w"
  "unique_sessions (snd (sendPurchaseConfirmationEmail x w order sid)) = unique_sessions w"
  by (simp_all add: sendPurchaseConfirmationEmail_def Let_def)

lemma webhook_email_frame:
  "orders (webhook_email x w order sid) = orders w"
  "order_items (webhook_email x w order sid) = order_items w"
  "next_id (webhook_email x w order sid) = next_id w"
  "unique_sessions (webhook_email x w order sid) = unique_sessions w"
  by (simp_all add: webhook_email_def send_frame)

lemma callback_email_frame:
  "orders (callback_email x w order s sid) = orders w"
  "order_items (callback_email x w order s sid) = order_items w"
  "next_id (callback_email x w order s sid) = next_id w"
  "unique_sessions (callback_email x w order s sid) = unique_sessions w"
  by (simp_all add: callback_email_def send_frame)

lemma addOrderItems_Some:
  "addOrderItems x w its = Some w' \<Longrightarrow> w' = w\<lparr>order_items := order_items w @ its\<rparr>"
  by (simp add: addOrderItems_def split: if_splits)

lemma webhook_items_frame:
  "orders (webhook_items x w md order) = orders w"
  "next_id (webhook_items x w md order) = next_id w"
  "unique_sessions (webhook_items x w md order) = unique_sessions w"
  "emails (webhook_items x w md order) = emails w"
  by (simp_all add: webhook_items_def addOrderItems_def split: option.splits)

lemma callback_items_frame:
  "orders (snd (callback_items x w md order)) = orders w"
  "next_id (snd (callback_items x w md order)) = next_id w"
  "unique_sessions (snd (callback_items x w md order)) = unique_sessions w"
  "emails (snd (callback_items x w md order)) = emails w"
  by (simp_all add: callback_items_def addOrderItems_def split: option.splits)

lemma webhook_items_written:
  "order_items (webhook_items x w md order) = order_items w @ items_written x md (order_id (fst order))"
  by (simp add: webhook_items_def addOrderItems_def items_written_def split: option.splits)

lemma callback_items_written:
  "order_items (snd (callback_items x w md order)) = order_items w @ items_written x md (order_id (fst order))"
  by (simp add: callback_items_def addOrderItems_def items_written_def split: option.splits)

lemma single_Some: "single rs = Some r \<longleftrightarrow> rs = [r]"
  by (auto simp: single_def split: list.splits)

lemma single_None: "single rs = None \<longleftrightarrow> length rs \<noteq> 1"
  by (auto simp: single_def split: list.splits)

lemma getOrderById_row:
  assumes "getOrderById x w i = Some full" and "r \<in> set (orders w)" and "order_id r = i"
  shows "fst full = r"
proof -
  obtain r' where r': "rows_of_id w i = [r']" "full = with_items w r'"
    using assms(1) by (auto simp: getOrderById_def single_Some split: if_splits)
  have "r \<in> set (rows_of_id w i)"
    using assms(2,3) by (simp add: rows_of_id_def)
  then show ?thesis using r' by (simp add: with_items_def)
qed

lemma callback_items_row:
  assumes "fst order \<in> set (orders w)"
  shows "fst (fst (callback_items x w md order)) = fst order"
proof (cases "itemsData x md")
  case None
  then show ?thesis by (simp add: callback_items_def)
next
  case (Some its)
  show ?thesis
  proof (cases "insert_items_fails x")
    case True
    then show ?thesis using Some by (simp add: callback_items_def addOrderItems_def)
  next
    case False
    define w' where "w' = w\<lparr>order_items := order_items w @ orderItems_of (order_id (fst order)) its\<rparr>"
    have add: "addOrderItems x w (orderItems_of (order_id (fst order)) its) = Some w'"
      using False by (simp add: addOrderItems_def w'_def)
    have mem: "fst order \<in> set (orders w')"
      using assms by (simp add: w'_def)
    show ?thesis
    proof (cases "getOrderById x w' (order_id (fst order))")
      case None
      then show ?thesis using Some add by (simp add: callback_items_def)
    next
      case (Some full)
      then have "fst full = fst order"
        using getOrderById_row [OF Some mem] by simp
      then show ?thesis using Some add \<open>itemsData x md = Some its\<close>
        by (simp add: callback_items_def)
    qed
  qed
qed

lemma createOrder_Inr:
  assumes "createOrder x w od = Inr (order, w1)"
  shows "order = (\<lparr>order_id = next_id w, odata = od\<rparr>, None)"
    and "w1 = w\<lparr>orders := orders w @ [\<lparr>order_id = next_id w, odata = od\<rparr>], next_id := Suc (next_id w)\<rparr>"
  using assms by (simp_all add: createOrder_def Let_def split: if_splits)

lemma createOrder_Inl:
  "createOrder x w od = Inl e \<Longrightarrow> e = CreateOrderFailed"
  by (simp add: createOrder_def Let_def split: if_splits)



lemma callback_path:
  assumes "fresh_paid_signal x w sid s md"
  shows "create_order_from_session x w (Some sid) =
           (case createOrder x w (orderData_of md (customer_email s) sid) of
              Inl e \<Rightarrow> (ServerError e, w)
            | Inr (order0, w1) \<Rightarrow>
                (OrderCreated (fst (callback_items x w1 md order0)),
                 callback_email x (snd (callback_items x w1 md order0))
                   (fst (callback_items x w1 md order0)) s sid))"
  using assms
  by (simp add: fresh_paid_signal_def create_order_from_session_def or_null_def
      callback_after_lookup_def split: sum.splits prod.splits)

lemma webhook_path:
  assumes "fresh_paid_signal x w sid s md"
  shows "webhook x w (Some (completed s)) =
           (case createOrder x w (orderData_of md (customer_email s) sid) of
              Inl e \<Rightarrow> (WebhookError e, w)
            | Inr (order0, w1) \<Rightarrow>
                (Received, webhook_email x (webhook_items x w1 md order0) order0 sid))"
  using assms
  by (simp add: fresh_paid_signal_def webhook_def completed_def webhook_switch_def
      webhook_completed_def completed_after_lookup_def split: sum.splits prod.splits)

section \<open>The unit price\<close>

lemma gt0_truthy: "gt0 d \<Longrightarrow> truthy d"
  by (cases d) (simp_all add: gt0_def truthy_def)

lemma positive_pct: "positive d = gt0 (pct d)"
  using gt0_truthy [of "pct d"]
  by (cases d) (auto simp: positive_def pct_def gt0_def)

text \<open>
  C6 (as the code has it). The unit price of a cart item is
  \<^verbatim>\<open>Math.round(basePrice * (1 - d / 100))\<close>, each operation in double arithmetic, where
  \<open>d\<close> is the product's percentage when that is positive and otherwise the event's
  percentage when that is positive; when neither is positive it is the base price itself,
  returned as it is: the branch without a discount does not round.
\<close>

theorem calculateUnitPrice_precedence:
  "calculateUnitPrice item =
     (if gt0 (pct (discount_percentage (product item)))
      then Math_round (js_times (price (product item))
             (js_minus (Fin 1) (js_divide_100 (pct (discount_percentage (product item))))))
      else if gt0 (pct (activeEvent_discount item))
      then Math_round (js_times (price (product item))
             (js_minus (Fin 1) (js_divide_100 (pct (activeEvent_discount item)))))
      else price (product item))"
proof -
  have t: "positive d \<Longrightarrow> the d = pct d" for d
    by (cases d) (simp_all add: positive_def pct_def)
  have z: "\<not> positive (Some (Fin 0))"
    by (simp add: positive_def gt0_def)
  show ?thesis
    using t [of "discount_percentage (product item)"] t [of "activeEvent_discount item"] z
    by (simp add: calculateUnitPrice_def Let_def positive_pct [symmetric])
qed

text \<open>
  C6 as the specification states it rounds the undiscounted price too, and takes the
  discounted price in exact arithmetic. A price of 10.5 with no discount is returned as
  10.5, where the stated rule gives 11; and a price of 45 with a product discount of 30
  gives 31, because the product computed in doubles falls just below 31.5, where the
  stated rule gives 32.
\<close>

theorem calculateUnitPrice_unrounded_counterexample:
  "calculateUnitPrice \<lparr>product = \<lparr>price = Fin (21 / 2), discount_percentage = None\<rparr>,
                       quantity = Fin 1, activeEvent = None\<rparr> = Fin (21 / 2)
   \<and> spec_unit_price (21 / 2) 0 0 = 11
   \<and> calculateUnitPrice \<lparr>product = \<lparr>price = Fin 45, discount_percentage = Some (Fin 30)\<rparr>,
                         quantity = Fin 1, activeEvent = None\<rparr> = Fin 31
   \<and> spec_unit_price 45 30 0 = 32"
  by code_simp

section \<open>The steps after the order insert\<close>

lemma items_written_fail:
  "insert_items_fails x \<or> itemsData x md = None \<Longrightarrow> items_written x md i = []"
  by (auto simp: items_written_def split: option.splits)

lemma callback_items_fail:
  "insert_items_fails x \<or> itemsData x md = None \<Longrightarrow> callback_items x w md order = (order, w)"
  by (auto simp: callback_items_def addOrderItems_def split: option.splits)

lemma webhook_items_fail:
  "insert_items_fails x \<or> itemsData x md = None \<Longrightarrow> webhook_items x w md order = w"
  by (auto simp: webhook_items_def addOrderItems_def split: option.splits)

lemma webhook_email_emails:
  "emails (webhook_email x w order sid) =
     (if email (shipping (odata (fst order))) = [] then emails w
      else emails w @ [\<lparr>mail_order = order, mail_session = sid, mail_sent = (\<not> email_fails x)\<rparr>])"
  by (simp add: webhook_email_def sendPurchaseConfirmationEmail_def Let_def)

lemma callback_email_emails:
  "email (shipping (odata (fst order))) \<noteq> [] \<Longrightarrow>
   emails (callback_email x w order s sid) =
     emails w @ [\<lparr>mail_order = order, mail_session = sid, mail_sent = (\<not> email_fails x)\<rparr>]"
  by (simp add: callback_email_def sendPurchaseConfirmationEmail_def Let_def or_default_def)

text \<open>
  C8. When the order-items step throws after the order has been inserted (the insert of
  the items fails, or the items string does not parse), the order stays in the store with
  the fields it was inserted with, no item is written, the email step runs on the inserted
  order, and the request succeeds: create-order-from-session answers with the order, the
  webhook acknowledges the event.
\<close>

theorem items_failure_keeps_order:
  assumes sig: "fresh_paid_signal x w sid s md"
    and ins: "createOrder x w (orderData_of md (customer_email s) sid) = Inr (order, w1)"
    and fail: "insert_items_fails x \<or> itemsData x md = None"
  shows "create_order_from_session x w (Some sid) = (OrderCreated order, callback_email x w1 order s sid)
       \<and> webhook x w (Some (completed s)) = (Received, webhook_email x w1 order sid)
       \<and> fst order = \<lparr>order_id = next_id w, odata = orderData_of md (customer_email s) sid\<rparr>
       \<and> orders (callback_email x w1 order s sid) = orders w @ [fst order]
       \<and> orders (webhook_email x w1 order sid) = orders w @ [fst order]
       \<and> order_items (callback_email x w1 order s sid) = order_items w
       \<and> order_items (webhook_email x w1 order sid) = order_items w
       \<and> (email (shipping (odata (fst order))) \<noteq> [] \<longrightarrow>
            emails (callback_email x w1 order s sid)
              = emails w @ [\<lparr>mail_order = order, mail_session = sid, mail_sent = (\<not> email_fails x)\<rparr>]
          \<and> emails (webhook_email x w1 order sid)
              = emails w @ [\<lparr>mail_order = order, mail_session = sid, mail_sent = (\<not> email_fails x)\<rparr>])"
proof -
  note c = createOrder_Inr [OF ins]
  have 1: "create_order_from_session x w (Some sid) = (OrderCreated order, callback_email x w1 order s sid)"
    using callback_path [OF sig] ins callback_items_fail [OF fail] by simp
  have 2: "webhook x w (Some (completed s)) = (Received, webhook_email x w1 order sid)"
    using webhook_path [OF sig] ins webhook_items_fail [OF fail] by simp
  have 3: "fst order = \<lparr>order_id = next_id w, odata = orderData_of md (customer_email s) sid\<rparr>"
    using c(1) by simp
  have 4: "orders w1 = orders w @ [fst order]" "order_items w1 = order_items w" "emails w1 = emails w"
    using c by simp_all
  show ?thesis
    using 1 2 3 4 by (simp add: callback_email_frame webhook_email_frame webhook_email_emails callback_email_emails)
qed

theorem items_failure_keeps_order_witness:
  "fresh_paid_signal ((quiet ''paid'')\<lparr>insert_items_fails := True\<rparr>) (empty_store False) ''cs_1''
     (demo_session ''cs_1'' ''paid'') demo_md
   \<and> fst (create_order_from_session ((quiet ''paid'')\<lparr>insert_items_fails := True\<rparr>) (empty_store False) (Some ''cs_1''))
       = OrderCreated (\<lparr>order_id = 0, odata = orderData_of demo_md None ''cs_1''\<rparr>, None)
   \<and> fst (webhook ((quiet ''paid'')\<lparr>insert_items_fails := True\<rparr>) (empty_store False)
            (Some (completed (demo_session ''cs_1'' ''paid'')))) = Received"
proof -
  let ?x = "(quiet ''paid'')\<lparr>insert_items_fails := True\<rparr>"
  let ?w = "empty_store False"
  let ?s = "demo_session ''cs_1'' ''paid''"
  let ?r = "\<lparr>order_id = 0, odata = orderData_of demo_md None ''cs_1''\<rparr>"
  have sig: "fresh_paid_signal ?x ?w ''cs_1'' ?s demo_md"
    by (simp add: fresh_paid_signal_def getOrderBySessionId_def rows_of_session_def single_def
        quiet_def empty_store_def demo_session_def)
  have ins: "createOrder ?x ?w (orderData_of demo_md (customer_email ?s) ''cs_1'')
               = Inr ((?r, None), ?w\<lparr>orders := [?r], next_id := 1\<rparr>)"
    by (simp add: createOrder_def quiet_def empty_store_def demo_session_def session_taken_def Let_def)
  have fail: "insert_items_fails ?x \<or> itemsData ?x demo_md = None"
    by (simp add: quiet_def)
  show ?thesis
    using sig items_failure_keeps_order [OF sig ins fail] by simp
qed

section \<open>The email step\<close>

lemma email_flag_store:
  "getOrderBySessionId (x\<lparr>email_fails := b\<rparr>) = getOrderBySessionId x"
  "getOrderById (x\<lparr>email_fails := b\<rparr>) = getOrderById x"
  "createOrder (x\<lparr>email_fails := b\<rparr>) = createOrder x"
  "addOrderItems (x\<lparr>email_fails := b\<rparr>) = addOrderItems x"
  "updateOrderStatus (x\<lparr>email_fails := b\<rparr>) = updateOrderStatus x"
  "itemsData (x\<lparr>email_fails := b\<rparr>) = itemsData x"
  by (simp_all add: fun_eq_iff getOrderBySessionId_def getOrderById_def createOrder_def
      addOrderItems_def updateOrderStatus_def itemsData_def)

lemma email_flag_items:
  "webhook_items (x\<lparr>email_fails := b\<rparr>) = webhook_items x"
  "callback_items (x\<lparr>email_fails := b\<rparr>) = callback_items x"
  by (simp_all add: fun_eq_iff webhook_items_def callback_items_def email_flag_store
      cong: option.case_cong)

lemma tables_email:
  "tables (webhook_email x w order sid) = tables w"
  "tables (callback_email x w order s sid) = tables w"
  by (simp_all add: tables_def webhook_email_frame callback_email_frame)

lemma email_flag_completed:
  "fst (completed_after_lookup (x\<lparr>email_fails := b\<rparr>) w s ex) = fst (completed_after_lookup x w s ex)
   \<and> tables (snd (completed_after_lookup (x\<lparr>email_fails := b\<rparr>) w s ex))
       = tables (snd (completed_after_lookup x w s ex))"
  by (simp add: completed_after_lookup_def email_flag_store email_flag_items tables_email
      split: option.splits sum.splits prod.splits)

lemma email_flag_callback:
  "fst (callback_after_lookup (x\<lparr>email_fails := b\<rparr>) w sid ex) = fst (callback_after_lookup x w sid ex)
   \<and> tables (snd (callback_after_lookup (x\<lparr>email_fails := b\<rparr>) w sid ex))
       = tables (snd (callback_after_lookup x w sid ex))"
  by (simp add: callback_after_lookup_def email_flag_store email_flag_items tables_email
      split: option.splits sum.splits prod.splits)

lemma email_flag_async:
  "webhook_async (x\<lparr>email_fails := b\<rparr>) = webhook_async x"
  by (simp add: fun_eq_iff webhook_async_def email_flag_store cong: option.case_cong)

lemma email_flag_switch:
  "fst (webhook_switch (x\<lparr>email_fails := b\<rparr>) w ev) = fst (webhook_switch x w ev)
   \<and> tables (snd (webhook_switch (x\<lparr>email_fails := b\<rparr>) w ev)) = tables (snd (webhook_switch x w ev))"
  using email_flag_completed [where x = x and b = b and w = w and s = "event_session ev"]
  by (simp add: webhook_switch_def webhook_completed_def email_flag_async email_flag_store)

lemma email_flag_handle:
  "fst (handle (x\<lparr>email_fails := b\<rparr>) w r) = fst (handle x w r)
   \<and> tables (snd (handle (x\<lparr>email_fails := b\<rparr>) w r)) = tables (snd (handle x w r))"
proof (cases r)
  case (Webhook body)
  show ?thesis
  proof (cases body)
    case None
    then show ?thesis using Webhook by (simp add: webhook_def)
  next
    case (Some ev)
    obtain e1 w1 where 1: "webhook_switch (x\<lparr>email_fails := b\<rparr>) w ev = (e1, w1)" by force
    obtain e2 w2 where 2: "webhook_switch x w ev = (e2, w2)" by force
    have "e1 = e2" "tables w1 = tables w2"
      using email_flag_switch [where x = x and b = b and w = w and ev = ev] 1 2 by simp_all
    then show ?thesis using Webhook Some 1 2
      by (simp add: webhook_def split: option.splits)
  qed
next
  case (CreateOrderFromSession body)
  then show ?thesis
    using email_flag_callback [where x = x and b = b and w = w]
    by (simp add: create_order_from_session_def email_flag_store split: option.splits)
qed


text \<open>What a successful order insert leads to on the two paths.\<close>

lemma created_callback:
  assumes sig: "fresh_paid_signal x w sid s md"
    and ins: "createOrder x w (orderData_of md (customer_email s) sid) = Inr (order, w1)"
  shows "\<exists>full w'. create_order_from_session x w (Some sid) = (OrderCreated full, w')
           \<and> fst full = fst order \<and> orders w' = orders w @ [fst order]
           \<and> order_items w' = order_items w @ items_written x md (next_id w)"
proof -
  note c = createOrder_Inr [OF ins]
  have mem: "fst order \<in> set (orders w1)" using c by simp
  have "fst (fst (callback_items x w1 md order)) = fst order"
    using callback_items_row [OF mem] .
  moreover have "orders (snd (callback_items x w1 md order)) = orders w @ [fst order]"
    using c by (simp add: callback_items_frame)
  moreover have "order_items (snd (callback_items x w1 md order))
                   = order_items w @ items_written x md (next_id w)"
    using c by (simp add: callback_items_written)
  ultimately show ?thesis
    using callback_path [OF sig] ins by (simp add: callback_email_frame)
qed

lemma created_webhook:
  assumes sig: "fresh_paid_signal x w sid s md"
    and ins: "createOrder x w (orderData_of md (customer_email s) sid) = Inr (order, w1)"
  shows "\<exists>w'. webhook x w (Some (completed s)) = (Received, w')
           \<and> orders w' = orders w @ [fst order]
           \<and> order_items w' = order_items w @ items_written x md (next_id w)"
proof -
  note c = createOrder_Inr [OF ins]
  show ?thesis
    using webhook_path [OF sig] ins c
    by (simp add: webhook_email_frame webhook_items_frame webhook_items_written)
qed

text \<open>
  C9. A failing email dispatch changes neither the response nor the tables of the store:
  every request answers the same and leaves the same orders and order items whether the
  dispatch throws or not. In particular, when a paid session without an order is
  materialised and the dispatch throws, create-order-from-session still answers with the
  created order, the webhook still acknowledges, and the order is in the store.
\<close>

theorem email_failure_harmless:
  "fst (handle (x\<lparr>email_fails := True\<rparr>) w r) = fst (handle (x\<lparr>email_fails := False\<rparr>) w r)
   \<and> tables (snd (handle (x\<lparr>email_fails := True\<rparr>) w r))
       = tables (snd (handle (x\<lparr>email_fails := False\<rparr>) w r))
   \<and> (fresh_paid_signal x w sid s md
        \<and> createOrder x w (orderData_of md (customer_email s) sid) = Inr (order, w1)
        \<and> email_fails x \<longrightarrow>
          (\<exists>full w'. create_order_from_session x w (Some sid) = (OrderCreated full, w')
                   \<and> fst full = fst order \<and> fst order \<in> set (orders w'))
        \<and> (\<exists>w'. webhook x w (Some (completed s)) = (Received, w')
                   \<and> fst order \<in> set (orders w')))"
proof -
  have 1: "fst (handle (x\<lparr>email_fails := True\<rparr>) w r) = fst (handle (x\<lparr>email_fails := False\<rparr>) w r)"
    using email_flag_handle [where x = x and b = True and w = w and r = r]
      email_flag_handle [where x = x and b = False and w = w and r = r] by simp
  have 2: "tables (snd (handle (x\<lparr>email_fails := True\<rparr>) w r))
             = tables (snd (handle (x\<lparr>email_fails := False\<rparr>) w r))"
    using email_flag_handle [where x = x and b = True and w = w and r = r]
      email_flag_handle [where x = x and b = False and w = w and r = r] by simp
  have 3: "(\<exists>full w'. create_order_from_session x w (Some sid) = (OrderCreated full, w')
                   \<and> fst full = fst order \<and> fst order \<in> set (orders w'))
        \<and> (\<exists>w'. webhook x w (Some (completed s)) = (Received, w')
                   \<and> fst order \<in> set (orders w'))"
    if sig: "fresh_paid_signal x w sid s md"
      and ins: "createOrder x w (orderData_of md (customer_email s) sid) = Inr (order, w1)"
  proof -
    obtain full w' where "create_order_from_session x w (Some sid) = (OrderCreated full, w')"
      "fst full = fst order" "orders w' = orders w @ [fst order]"
      using created_callback [OF sig ins] by blast
    moreover obtain w'' where "webhook x w (Some (completed s)) = (Received, w'')"
      "orders w'' = orders w @ [fst order]"
      using created_webhook [OF sig ins] by blast
    ultimately show ?thesis by simp
  qed
  show ?thesis using 1 2 3 by blast
qed

theorem email_failure_harmless_witness:
  "fresh_paid_signal ((quiet ''paid'')\<lparr>email_fails := True\<rparr>) (empty_store False) ''cs_1''
     (demo_session ''cs_1'' ''paid'') demo_md
   \<and> email_fails ((quiet ''paid'')\<lparr>email_fails := True\<rparr>)
   \<and> (\<exists>full w'. create_order_from_session ((quiet ''paid'')\<lparr>email_fails := True\<rparr>) (empty_store False)
                  (Some ''cs_1'') = (OrderCreated full, w')
               \<and> fst full = \<lparr>order_id = 0, odata = orderData_of demo_md None ''cs_1''\<rparr>
               \<and> fst full \<in> set (orders w'))"
proof -
  let ?x = "(quiet ''paid'')\<lparr>email_fails := True\<rparr>"
  let ?w = "empty_store False"
  let ?s = "demo_session ''cs_1'' ''paid''"
  let ?r = "\<lparr>order_id = 0, odata = orderData_of demo_md None ''cs_1''\<rparr>"
  have sig: "fresh_paid_signal ?x ?w ''cs_1'' ?s demo_md"
    by (simp add: fresh_paid_signal_def getOrderBySessionId_def rows_of_session_def single_def
        quiet_def empty_store_def demo_session_def)
  have ins: "createOrder ?x ?w (orderData_of demo_md (customer_email ?s) ''cs_1'')
               = Inr ((?r, None), ?w\<lparr>orders := [?r], next_id := 1\<rparr>)"
    by (simp add: createOrder_def quiet_def empty_store_def demo_session_def session_taken_def Let_def)
  have f: "email_fails ?x" by simp
  show ?thesis
    using sig f email_failure_harmless [where x = ?x and w = ?w and sid = "''cs_1''" and s = ?s
        and md = demo_md and order = "(?r, None)" and ?w1.0 = "?w\<lparr>orders := [?r], next_id := 1\<rparr>"] ins
    by simp
qed

section \<open>Amounts read from the metadata\<close>

subsection \<open>Rounding to a double: the exponent, and integers that are doubles\<close>

lemma bit_length_bounds:
  "0 < n \<Longrightarrow> 1 \<le> bit_length n \<and> 2 ^ nat (bit_length n - 1) \<le> n \<and> n < 2 ^ nat (bit_length n)"
proof (induction n rule: bit_length.induct)
  case (1 n)
  show ?case
  proof (cases "n div 2 = 0")
    case True
    then have n: "n = 1" using "1.prems" by presburger
    have "bit_length 1 = 1"
      by (simp add: bit_length.simps [of 1] bit_length.simps [of 0])
    then show ?thesis using n by simp
  next
    case False
    then have pos: "0 < n div 2" using "1.prems" by presburger
    have ih: "1 \<le> bit_length (n div 2)" "2 ^ nat (bit_length (n div 2) - 1) \<le> n div 2"
      "n div 2 < 2 ^ nat (bit_length (n div 2))"
      using "1.IH" "1.prems" pos by simp_all
    have b: "bit_length n = 1 + bit_length (n div 2)"
      using "1.prems" by (simp add: bit_length.simps [of n])
    have e: "nat (bit_length n - 1) = Suc (nat (bit_length (n div 2) - 1))"
      "nat (bit_length n) = Suc (nat (bit_length (n div 2)))"
      using b ih(1) by simp_all
    have "2 * 2 ^ nat (bit_length (n div 2) - 1) \<le> n" using ih(2) by presburger
    moreover have "n < 2 * 2 ^ nat (bit_length (n div 2))" using ih(3) by presburger
    ultimately show ?thesis using b ih(1) e by simp
  qed
qed

text \<open>The exponent is the right one, for every rational other than 0.\<close>

lemma powi_nat: "0 \<le> k \<Longrightarrow> (2::rat) powi k = 2 ^ nat k"
  by (simp add: power_int_def)

lemma ilog2_bounds:
  assumes "x \<noteq> 0"
  shows "2 powi (ilog2 x) \<le> \<bar>x\<bar> \<and> \<bar>x\<bar> < 2 powi (ilog2 x + 1)"
proof -
  obtain p q where pq: "quotient_of x = (p, q)" by (cases "quotient_of x")
  have q: "0 < q" using quotient_of_denom_pos [OF pq] .
  have x: "x = of_int p / of_int q" using quotient_of_div [OF pq] .
  have p: "0 < \<bar>p\<bar>" using assms x by auto
  define bp where "bp = bit_length \<bar>p\<bar>"
  define bq where "bq = bit_length q"
  note P = bit_length_bounds [OF p, folded bp_def]
  note Q = bit_length_bounds [OF q, folded bq_def]
  define d where "d = bp - bq"
  have ax: "\<bar>x\<bar> = of_int \<bar>p\<bar> / of_int q" using x q by (simp add: abs_divide)
  have qr: "(0::rat) < of_int q" using q by simp
  have pl: "(2::rat) powi (bp - 1) \<le> of_int \<bar>p\<bar>"
  proof -
    have "(2::rat) powi (bp - 1) = of_int (2 ^ nat (bp - 1))" using P by (simp add: powi_nat)
    also have "\<dots> \<le> of_int \<bar>p\<bar>" using P by (simp only: of_int_le_iff)
    finally show ?thesis .
  qed
  have pu: "of_int \<bar>p\<bar> < (2::rat) powi bp"
  proof -
    have "(of_int \<bar>p\<bar> :: rat) < of_int (2 ^ nat bp)" using P by (simp only: of_int_less_iff)
    also have "\<dots> = 2 powi bp" using P by (simp add: powi_nat)
    finally show ?thesis .
  qed
  have ql: "(2::rat) powi (bq - 1) \<le> of_int q"
  proof -
    have "(2::rat) powi (bq - 1) = of_int (2 ^ nat (bq - 1))" using Q by (simp add: powi_nat)
    also have "\<dots> \<le> of_int q" using Q by (simp only: of_int_le_iff)
    finally show ?thesis .
  qed
  have qu: "of_int q < (2::rat) powi bq"
  proof -
    have "(of_int q :: rat) < of_int (2 ^ nat bq)" using Q by (simp only: of_int_less_iff)
    also have "\<dots> = 2 powi bq" using Q by (simp add: powi_nat)
    finally show ?thesis .
  qed
  have up: "\<bar>x\<bar> < 2 powi (d + 1)"
  proof -
    have "of_int \<bar>p\<bar> < (2::rat) powi (d + 1) * 2 powi (bq - 1)"
      using pu by (simp add: d_def power_int_add [symmetric])
    also have "\<dots> \<le> 2 powi (d + 1) * of_int q"
      using ql by (simp add: mult_left_mono)
    finally show ?thesis using qr by (simp add: ax pos_divide_less_eq)
  qed
  have lo: "2 powi (d - 1) < \<bar>x\<bar>"
  proof -
    have "(2::rat) powi (d - 1) * of_int q < 2 powi (d - 1) * 2 powi bq"
      using qu by (simp add: mult_strict_left_mono)
    also have "\<dots> = 2 powi (bp - 1)"
      by (simp add: d_def power_int_add [symmetric])
    also have "\<dots> \<le> of_int \<bar>p\<bar>" using pl .
    finally show ?thesis using qr by (simp add: ax pos_less_divide_eq)
  qed
  have il: "ilog2 x = (if 2 powi d \<le> \<bar>x\<bar> then d else d - 1)"
    using pq by (simp add: ilog2_def d_def bp_def bq_def)
  show ?thesis
  proof (cases "2 powi d \<le> \<bar>x\<bar>")
    case True
    then show ?thesis using il up by simp
  next
    case False
    then show ?thesis using il lo by simp
  qed
qed

text \<open>
  Some roundings: 1/10 and 3/10 are no doubles, and \<open>2^53 + 1\<close> lies halfway between two
  doubles and goes to the even one.
\<close>

lemma to_double_examples:
  "to_double (1 / 10) = Fin (3602879701896397 / 36028797018963968)"
  "to_double (3 / 10) = Fin (5404319552844595 / 18014398509481984)"
  "to_double (9007199254740993) = Fin 9007199254740992"
  "to_double (9007199254740995) = Fin 9007199254740996"
  "to_double (- (1 / 2)) = Fin (- (1 / 2))"
  "js_minus (Fin 1) (js_divide_100 (Fin 30)) = Fin (3152519739159347 / 4503599627370496)"
  by code_simp+

lemma round_even_of_int: "round_even (of_int k) = k"
  by (simp add: round_even_def)

lemma ilog2_of_int:
  assumes "n \<noteq> 0"
  shows "ilog2 (of_int n) = bit_length \<bar>n\<bar> - 1"
proof -
  have pos: "0 < \<bar>n\<bar>" using assms by simp
  note b = bit_length_bounds [OF pos]
  have one: "bit_length 1 = 1"
    by (simp add: bit_length.simps [of 1] bit_length.simps [of 0])
  have "(2::rat) powi (bit_length \<bar>n\<bar> - 1) = of_int (2 ^ nat (bit_length \<bar>n\<bar> - 1))"
    using b by (simp add: power_int_def)
  also have "\<dots> \<le> of_int \<bar>n\<bar>" using b by (simp only: of_int_le_iff)
  finally have "(2::rat) powi (bit_length \<bar>n\<bar> - 1) \<le> \<bar>of_int n\<bar>" by simp
  then show ?thesis by (simp add: ilog2_def one)
qed

lemma to_double_of_int:
  assumes "\<bar>n\<bar> \<le> 2 ^ 53"
  shows "to_double (of_int n) = Fin (of_int n)"
proof (cases "n = 0")
  case True
  then show ?thesis by (simp add: to_double_def)
next
  case False
  define e where "e = bit_length \<bar>n\<bar> - 1"
  have pos: "0 < \<bar>n\<bar>" using False by simp
  note b = bit_length_bounds [OF pos]
  have e0: "0 \<le> e" using b by (simp add: e_def)
  have lo: "2 ^ nat e \<le> \<bar>n\<bar>" using b by (simp add: e_def)
  have le: "(2::int) ^ nat e \<le> 2 ^ 53" using lo assms by linarith
  have "nat e \<le> 53" by (rule power_le_imp_le_exp [OF _ le]) simp
  then have e53: "e \<le> 53" by linarith
  define q :: rat where "q = 2 powi (e - 52)"
  have qpos: "0 < q" by (simp add: q_def)
  have "\<exists>k. of_int n / q = of_int k"
  proof (cases "e \<le> 52")
    case True
    have "q = inverse (2 ^ nat (52 - e))"
      using True by (cases "e = 52") (simp_all add: q_def power_int_def power_one_over inverse_eq_divide)
    then have "of_int n / q = of_int (n * 2 ^ nat (52 - e))"
      by (simp add: divide_inverse)
    then show ?thesis by blast
  next
    case False
    then have e: "e = 53" using e53 by simp
    then have "\<bar>n\<bar> = 2 ^ 53" using lo assms by simp
    then have "n = 2 ^ 53 \<or> n = - (2 ^ 53)" by linarith
    moreover have "q = 2" using e by (simp add: q_def)
    ultimately have "of_int n / q = of_int (2 ^ 52) \<or> of_int n / q = of_int (- (2 ^ 52))"
      by auto
    then show ?thesis by blast
  qed
  then obtain k where k: "of_int n / q = of_int k" by blast
  then have y: "of_int (round_even (of_int n / q)) * q = of_int n"
    using qpos by (simp add: round_even_of_int field_simps)
  have il: "max (ilog2 (of_int n)) (- 1022) = e"
    using ilog2_of_int [OF False] e0 by (simp add: e_def)
  show ?thesis
    using False il y e53 by (simp add: to_double_def Let_def q_def)
qed

subsection \<open>parseInt on a decimal numeral\<close>

lemma decimal_digit_plain:
  "is_digit 10 c \<Longrightarrow>
     c \<noteq> CHR ''x'' \<and> c \<noteq> CHR ''X'' \<and> c \<noteq> CHR ''-'' \<and> c \<noteq> CHR ''+'' \<and> \<not> is_ws1 c
     \<and> c \<noteq> CHR 0xC2 \<and> c \<noteq> CHR 0xE1 \<and> c \<noteq> CHR 0xE2 \<and> c \<noteq> CHR 0xE3 \<and> c \<noteq> CHR 0xEF"
  by (auto simp: is_digit_def digit_val_def is_ws1_def Let_def split: if_splits)

lemma skip_ws_digit: "is_digit 10 c \<Longrightarrow> skip_ws (c # s) = c # s"
proof -
  assume d: "is_digit 10 c"
  note p = decimal_digit_plain [OF d]
  show ?thesis
  proof (cases s)
    case Nil
    then show ?thesis using p by simp
  next
    case (Cons a t)
    show ?thesis
    proof (cases t)
      case Nil
      then show ?thesis using p Cons by (simp add: is_ws2_def)
    next
      case (Cons b u)
      then show ?thesis using p \<open>s = a # t\<close> by (simp add: is_ws2_def is_ws3_def)
    qed
  qed
qed

lemma point_no_digit: "\<not> is_digit 10 CHR ''.''"
  by (simp add: is_digit_def digit_val_def)

lemma digit_val_nonneg: "is_digit 10 c \<Longrightarrow> 0 \<le> the (digit_val c)"
  by (auto simp: is_digit_def digit_val_def Let_def split: if_splits)

lemma digits_value_nonneg:
  assumes "\<forall>c\<in>set ds. is_digit 10 c"
  shows "0 \<le> digits_value 10 ds"
proof -
  have "0 \<le> a \<Longrightarrow> \<forall>c\<in>set ds. is_digit 10 c \<Longrightarrow>
          0 \<le> foldl (\<lambda>a c. a * 10 + the (digit_val c)) a ds" for a
  proof (induction ds arbitrary: a)
    case Nil
    then show ?case by simp
  next
    case (Cons c cs)
    have "0 \<le> a * 10 + the (digit_val c)"
      using Cons.prems digit_val_nonneg [of c] by simp
    then show ?case using Cons by simp
  qed
  then show ?thesis using assms by (simp add: digits_value_def)
qed

lemma parseInt_fraction:
  assumes "ds \<noteq> []" and "\<forall>c\<in>set ds. is_digit 10 c"
  shows "parseInt (ds @ CHR ''.'' # rest) = to_double (of_int (digits_value 10 ds))"
proof -
  obtain c cs where ds: "ds = c # cs" using assms(1) by (cases ds) auto
  have c: "is_digit 10 c" using assms(2) ds by simp
  have tw: "takeWhile (is_digit 10) (ds @ CHR ''.'' # rest) = ds"
    using assms(2) point_no_digit by simp
  have sk: "skip_ws (ds @ CHR ''.'' # rest) = ds @ CHR ''.'' # rest"
    using skip_ws_digit [OF c] ds by simp
  show ?thesis
  proof (cases cs)
    case Nil
    then show ?thesis using decimal_digit_plain [OF c] ds tw sk
      by (simp add: parseInt_def Let_def)
  next
    case (Cons d es)
    then have "is_digit 10 d" using assms(2) ds by simp
    then show ?thesis using decimal_digit_plain [OF c] decimal_digit_plain [of d] ds tw sk Cons
      by (simp add: parseInt_def Let_def)
  qed
qed

lemma parseInt_fraction_exact:
  assumes "ds \<noteq> []" and "\<forall>c\<in>set ds. is_digit 10 c" and "digits_value 10 ds \<le> 2 ^ 53"
  shows "parseInt (ds @ CHR ''.'' # rest) = Fin (of_int (digits_value 10 ds))"
  using parseInt_fraction [OF assms(1,2)] digits_value_nonneg [OF assms(2)] assms(3)
  by (simp add: to_double_of_int)

lemma parseInt_zero: "parseInt ''0'' = Fin 0"
  by code_simp

text \<open>
  Some values: a numeral beyond \<open>2^53\<close> is rounded to a double, white space beyond ASCII
  is skipped, a sign and a hexadecimal prefix are read, and without a digit the result is
  NaN.
\<close>

lemma parseInt_examples:
  "parseInt ''1849.5'' = Fin 1849"
  "parseInt ''9007199254740993.5'' = Fin 9007199254740992"
  "parseInt [CHR 0xC2, CHR 0xA0, CHR ''1'', CHR ''2''] = Fin 12"
  "parseInt (CHR 0xA0 # ''12'') = Fin 12"
  "parseInt [CHR 0xE2, CHR 0x80, CHR 0x83, CHR 0x09, CHR ''7''] = Fin 7"
  "parseInt '' -0x1f'' = Fin (- 31)"
  "parseInt ''.5'' = NaN"
  "parseInt ''abc'' = NaN"
  by code_simp+

lemma or_default_falsy: "v = None \<or> v = Some [] \<Longrightarrow> or_default v d = d"
  by (auto simp: or_default_def)

lemma or_default_truthy: "t \<noteq> [] \<Longrightarrow> or_default (Some t) d = t"
  by (simp add: or_default_def)

lemma orderData_of_session [simp]:
  "stripe_session_id (orderData_of md cust sid) = Some sid"
  "status (orderData_of md cust sid) = ''processing''"
  by (simp_all add: orderData_of_def)

text \<open>
  C10. On both creation paths the order is inserted with the amounts read by
  \<^verbatim>\<open>parseInt\<close> from the metadata, whatever the metadata holds: an absent or empty
  \<^verbatim>\<open>total\<close> or \<^verbatim>\<open>discount_amount\<close> gives 0; a decimal numeral followed by a point and
  anything gives the double nearest to the value of the digits before the point, which is
  that value itself up to \<open>2^53\<close>; and an absent currency gives \<^verbatim>\<open>SEK\<close>. Nothing but the
  store can reject the insert.
\<close>

theorem metadata_amounts_parsed:
  assumes sig: "fresh_paid_signal x w sid s md"
    and store: "\<not> insert_order_fails x" "\<not> (unique_sessions w \<and> session_taken w (Some sid))"
    and row: "r = \<lparr>order_id = next_id w, odata = orderData_of md (customer_email s) sid\<rparr>"
  shows "(\<exists>full w'. create_order_from_session x w (Some sid) = (OrderCreated full, w')
                    \<and> fst full = r \<and> orders w' = orders w @ [r])
       \<and> (\<exists>w'. webhook x w (Some (completed s)) = (Received, w') \<and> orders w' = orders w @ [r])
       \<and> (md ''total'' = None \<or> md ''total'' = Some [] \<longrightarrow> total_amount (odata r) = Fin 0)
       \<and> (md ''discount_amount'' = None \<or> md ''discount_amount'' = Some [] \<longrightarrow>
             discount_amount (odata r) = Fin 0)
       \<and> (md ''currency'' = None \<longrightarrow> currency (odata r) = ''SEK'')
       \<and> (ds \<noteq> [] \<and> (\<forall>c\<in>set ds. is_digit 10 c) \<and> md ''total'' = Some (ds @ CHR ''.'' # rest) \<longrightarrow>
             total_amount (odata r) = to_double (of_int (digits_value 10 ds))
             \<and> (digits_value 10 ds \<le> 2 ^ 53 \<longrightarrow>
                  total_amount (odata r) = Fin (of_int (digits_value 10 ds))))
       \<and> (ds \<noteq> [] \<and> (\<forall>c\<in>set ds. is_digit 10 c) \<and> md ''discount_amount'' = Some (ds @ CHR ''.'' # rest) \<longrightarrow>
             discount_amount (odata r) = to_double (of_int (digits_value 10 ds))
             \<and> (digits_value 10 ds \<le> 2 ^ 53 \<longrightarrow>
                  discount_amount (odata r) = Fin (of_int (digits_value 10 ds))))"
proof -
  have ins: "createOrder x w (orderData_of md (customer_email s) sid)
               = Inr ((r, None), w\<lparr>orders := orders w @ [r], next_id := Suc (next_id w)\<rparr>)"
    using store row by (simp add: createOrder_def Let_def)
  have 1: "\<exists>full w'. create_order_from_session x w (Some sid) = (OrderCreated full, w')
                    \<and> fst full = r \<and> orders w' = orders w @ [r]"
    using created_callback [OF sig ins] by auto
  have 2: "\<exists>w'. webhook x w (Some (completed s)) = (Received, w') \<and> orders w' = orders w @ [r]"
    using created_webhook [OF sig ins] by auto
  have t: "total_amount (odata r) = parseInt (or_default (md ''total'') ''0'')"
    and d: "discount_amount (odata r) = parseInt (or_default (md ''discount_amount'') ''0'')"
    and c: "currency (odata r) = or_default (md ''currency'') ''SEK''"
    using row by (simp_all add: orderData_of_def)
  have 3: "md ''total'' = None \<or> md ''total'' = Some [] \<longrightarrow> total_amount (odata r) = Fin 0"
    using t by (auto simp: or_default_falsy parseInt_zero)
  have 4: "md ''discount_amount'' = None \<or> md ''discount_amount'' = Some [] \<longrightarrow>
             discount_amount (odata r) = Fin 0"
    using d by (auto simp: or_default_falsy parseInt_zero)
  have 5: "md ''currency'' = None \<longrightarrow> currency (odata r) = ''SEK''"
    using c by (simp add: or_default_def)
  have 6: "total_amount (odata r) = to_double (of_int (digits_value 10 ds))
             \<and> (digits_value 10 ds \<le> 2 ^ 53 \<longrightarrow>
                  total_amount (odata r) = Fin (of_int (digits_value 10 ds)))"
    if "ds \<noteq> []" "\<forall>c\<in>set ds. is_digit 10 c" "md ''total'' = Some (ds @ CHR ''.'' # rest)"
    using t that parseInt_fraction [OF that(1,2), of rest]
      parseInt_fraction_exact [OF that(1,2), of rest]
    by (simp add: or_default_truthy)
  have 7: "discount_amount (odata r) = to_double (of_int (digits_value 10 ds))
             \<and> (digits_value 10 ds \<le> 2 ^ 53 \<longrightarrow>
                  discount_amount (odata r) = Fin (of_int (digits_value 10 ds)))"
    if "ds \<noteq> []" "\<forall>c\<in>set ds. is_digit 10 c" "md ''discount_amount'' = Some (ds @ CHR ''.'' # rest)"
    using d that parseInt_fraction [OF that(1,2), of rest]
      parseInt_fraction_exact [OF that(1,2), of rest]
    by (simp add: or_default_truthy)
  show ?thesis using 1 2 3 4 5 6 7 by blast
qed

lemma fresh_on_empty:
  "sid \<noteq> [] \<Longrightarrow> fresh_paid_signal (quiet_with md) (empty_store u) sid (session_with md sid) md"
  by (simp add: fresh_paid_signal_def getOrderBySessionId_def rows_of_session_def single_def
      quiet_with_def session_with_def empty_store_def)

theorem metadata_amounts_parsed_witness:
  "(bare_md ''total'' = None \<and> bare_md ''discount_amount'' = Some [] \<and> bare_md ''currency'' = None
    \<and> total_amount (orderData_of bare_md None ''cs_1'') = Fin 0
    \<and> discount_amount (orderData_of bare_md None ''cs_1'') = Fin 0
    \<and> currency (orderData_of bare_md None ''cs_1'') = ''SEK''
    \<and> orders (snd (create_order_from_session (quiet_with bare_md) (empty_store False) (Some ''cs_1'')))
        = [\<lparr>order_id = 0, odata = orderData_of bare_md None ''cs_1''\<rparr>])
   \<and> (fraction_md ''total'' = Some (''1849'' @ CHR ''.'' # ''5'')
    \<and> total_amount (orderData_of fraction_md None ''cs_1'') = Fin 1849
    \<and> discount_amount (orderData_of fraction_md None ''cs_1'') = Fin 1849
    \<and> orders (snd (webhook (quiet_with fraction_md) (empty_store False)
                     (Some (completed (session_with fraction_md ''cs_1'')))))
        = [\<lparr>order_id = 0, odata = orderData_of fraction_md None ''cs_1''\<rparr>])"
proof -
  have ne: "''cs_1'' \<noteq> []" by simp
  have st: "\<not> insert_order_fails (quiet_with md)"
    "\<not> (unique_sessions (empty_store False) \<and> session_taken (empty_store False) (Some ''cs_1''))"
    for md
    by (simp_all add: quiet_with_def quiet_def empty_store_def)
  have b: "bare_md ''total'' = None" "bare_md ''discount_amount'' = Some []" "bare_md ''currency'' = None"
    by (simp_all add: bare_md_def)
  have f: "fraction_md ''total'' = Some (''1849'' @ CHR ''.'' # ''5'')"
    "fraction_md ''discount_amount'' = Some (''1849'' @ CHR ''.'' # ''5'')"
    by (simp_all add: fraction_md_def)
  have dg: "''1849'' \<noteq> [] \<and> (\<forall>c\<in>set ''1849''. is_digit 10 c)"
    by (simp add: is_digit_def digit_val_def)
  have v: "digits_value 10 ''1849'' = 1849"
    by (simp add: digits_value_def digit_val_def)
  have c: "customer_email (session_with md sid) = None" "next_id (empty_store False) = 0"
    "orders (empty_store False) = []" for md sid
    by (simp_all add: session_with_def empty_store_def)
  show ?thesis
    using metadata_amounts_parsed [OF fresh_on_empty [OF ne, of bare_md False] st refl,
        of "''1849''" "''5''"]
      metadata_amounts_parsed [OF fresh_on_empty [OF ne, of fraction_md False] st refl,
        of "''1849''" "''5''"]
      b f dg v
    by (auto simp: c)
qed

section \<open>Signals for a session that has an order\<close>

lemma distinct_id_rows:
  "distinct (map order_id rs) \<Longrightarrow> r \<in> set rs \<Longrightarrow> filter (\<lambda>r'. order_id r' = order_id r) rs = [r]"
proof (induction rs)
  case Nil
  then show ?case by simp
next
  case (Cons a rs)
  show ?case
  proof (cases "a = r")
    case True
    have "order_id r \<notin> order_id ` set rs"
      using Cons.prems(1) True by simp
    then have "\<forall>r'\<in>set rs. \<not> order_id r' = order_id r"
      by (metis imageI)
    then have "filter (\<lambda>r'. order_id r' = order_id r) rs = []"
      by (rule filter_False)
    then show ?thesis using True by simp
  next
    case False
    then have "r \<in> set rs" using Cons.prems(2) by simp
    moreover have "order_id a \<noteq> order_id r"
      using Cons.prems(1) \<open>r \<in> set rs\<close> by auto
    ultimately show ?thesis using Cons by simp
  qed
qed

lemma session_row:
  assumes "rows_of_session w sid = [r]"
  shows "r \<in> set (orders w)" and "stripe_session_id (odata r) = Some sid"
    and "\<And>r'. r' \<in> set (orders w) \<Longrightarrow> stripe_session_id (odata r') = Some sid \<Longrightarrow> r' = r"
proof -
  have m: "r' \<in> set (rows_of_session w sid) \<longleftrightarrow> r' \<in> set (orders w) \<and> stripe_session_id (odata r') = Some sid"
    for r' by (simp add: rows_of_session_def)
  show "r \<in> set (orders w)" "stripe_session_id (odata r) = Some sid"
    using m [of r] assms by simp_all
  show "r' = r" if "r' \<in> set (orders w)" "stripe_session_id (odata r') = Some sid" for r'
    using m [of r'] that assms by simp
qed

lemma lookup_found:
  "\<not> lookup_fails x \<Longrightarrow> rows_of_session w sid = [r] \<Longrightarrow>
     getOrderBySessionId x w sid = Some (with_items w r)"
  by (simp add: getOrderBySessionId_def single_def)

lemma lookup_absent:
  "rows_of_session w sid = [] \<Longrightarrow> getOrderBySessionId x w sid = None"
  by (simp add: getOrderBySessionId_def single_def)

lemma updateData_same_session:
  "stripe_session_id od = Some sid \<Longrightarrow> updateData st sid od = od\<lparr>status := st\<rparr>"
  by (cases od) (simp add: updateData_def)

lemma update_found:
  assumes d: "distinct (map order_id (orders w))"
    and r: "rows_of_session w sid = [r]"
    and u: "\<not> update_fails x"
  shows "updateOrderStatus x w (order_id r) st sid
           = Inr (w\<lparr>orders := set_status (order_id r) st (orders w)\<rparr>)"
proof -
  note s = session_row [OF r]
  have one: "rows_of_id w (order_id r) = [r]"
    using distinct_id_rows [OF d s(1)] by (simp add: rows_of_id_def)
  have other: "\<not> session_taken_by_other w (order_id r) sid"
    using s(3) by (auto simp: session_taken_by_other_def list_ex_iff)
  have "r'\<lparr>odata := updateData st sid (odata r')\<rparr> = r'\<lparr>odata := (odata r')\<lparr>status := st\<rparr>\<rparr>"
    if "r' \<in> set (orders w)" "order_id r' = order_id r" for r'
  proof -
    have "r' \<in> set (rows_of_id w (order_id r))" using that by (simp add: rows_of_id_def)
    then have "r' = r" using one by simp
    then show ?thesis using s(2) by (simp add: updateData_same_session)
  qed
  then have "map (\<lambda>r'. if order_id r' = order_id r then r'\<lparr>odata := updateData st sid (odata r')\<rparr> else r') (orders w)
               = set_status (order_id r) st (orders w)"
    unfolding set_status_def by (intro map_cong) auto
  then show ?thesis using u one other
    by (simp add: updateOrderStatus_def single_def)
qed

lemma rows_after_set_status:
  assumes d: "distinct (map order_id (orders w))" and r: "rows_of_session w sid = [r]"
  shows "rows_of_session (w\<lparr>orders := set_status (order_id r) st (orders w)\<rparr>) sid
           = [r\<lparr>odata := (odata r)\<lparr>status := st\<rparr>\<rparr>]"
proof -
  let ?f = "\<lambda>r'. if order_id r' = order_id r then r'\<lparr>odata := (odata r')\<lparr>status := st\<rparr>\<rparr> else r'"
  have "rows_of_session (w\<lparr>orders := set_status (order_id r) st (orders w)\<rparr>) sid
          = map ?f (filter (\<lambda>r'. stripe_session_id (odata (?f r')) = Some sid) (orders w))"
    by (simp add: rows_of_session_def set_status_def filter_map comp_def)
  also have "(\<lambda>r'. stripe_session_id (odata (?f r')) = Some sid) = (\<lambda>r'. stripe_session_id (odata r') = Some sid)"
    by (rule ext) simp
  also have "filter (\<lambda>r'. stripe_session_id (odata r') = Some sid) (orders w) = [r]"
    using r by (simp add: rows_of_session_def)
  finally show ?thesis by simp
qed

text \<open>
  C7 (as the code has it). A \<^verbatim>\<open>checkout.session.async_payment_failed\<close> event for a
  session without an order writes nothing. For a session with exactly one order, when the
  lookup and the update succeed, the status of that order becomes \<^verbatim>\<open>pending\<close> whatever
  it was before, its other fields and all other rows stay as they are, and the event is
  acknowledged. When the lookup fails or the session does not have exactly one order,
  nothing is written and the event is acknowledged; when the update fails, nothing is
  written and the webhook answers 400.
\<close>

theorem async_payment_failed_pending:
  assumes ev: "event_type ev = ''checkout.session.async_payment_failed''"
    and sid: "session_id (event_session ev) = sid"
  shows "(rows_of_session w sid = [] \<longrightarrow> webhook x w (Some ev) = (Received, w))
       \<and> (distinct (map order_id (orders w)) \<and> rows_of_session w sid = [r]
            \<and> \<not> lookup_fails x \<and> \<not> update_fails x \<longrightarrow>
            webhook x w (Some ev)
              = (Received, w\<lparr>orders := set_status (order_id r) ''pending'' (orders w)\<rparr>)
            \<and> rows_of_session (w\<lparr>orders := set_status (order_id r) ''pending'' (orders w)\<rparr>) sid
              = [r\<lparr>odata := (odata r)\<lparr>status := ''pending''\<rparr>\<rparr>])
       \<and> (lookup_fails x \<or> length (rows_of_session w sid) \<noteq> 1 \<longrightarrow>
            webhook x w (Some ev) = (Received, w))
       \<and> (rows_of_session w sid = [r] \<and> \<not> lookup_fails x \<and> update_fails x \<longrightarrow>
            webhook x w (Some ev) = (WebhookError UpdateStatusFailed, w))"
proof -
  have sw: "webhook_switch x w ev = webhook_async x w (event_session ev) ''pending''"
    using ev by (simp add: webhook_switch_def)
  have ne: "event_type ev \<noteq> []" using ev by simp
  have 1: "webhook x w (Some ev) = (Received, w)" if "rows_of_session w sid = []"
    using lookup_absent [OF that, of x] sw ne sid by (simp add: webhook_def webhook_async_def)
  have 2: "webhook x w (Some ev) = (Received, w\<lparr>orders := set_status (order_id r) ''pending'' (orders w)\<rparr>)"
    if "distinct (map order_id (orders w))" "rows_of_session w sid = [r]" "\<not> lookup_fails x" "\<not> update_fails x"
    using lookup_found [OF that(3) that(2)] update_found [OF that(1) that(2) that(4), of "''pending''"] sw ne sid
    by (simp add: webhook_def webhook_async_def with_items_def)
  have 3: "webhook x w (Some ev) = (Received, w)"
    if "lookup_fails x \<or> length (rows_of_session w sid) \<noteq> 1"
  proof -
    have "getOrderBySessionId x w sid = None"
      using that by (auto simp: getOrderBySessionId_def single_None)
    then show ?thesis using sw ne sid by (simp add: webhook_def webhook_async_def)
  qed
  have 4: "webhook x w (Some ev) = (WebhookError UpdateStatusFailed, w)"
    if "rows_of_session w sid = [r]" "\<not> lookup_fails x" "update_fails x"
  proof -
    have "updateOrderStatus x w (order_id r) ''pending'' sid = Inl UpdateStatusFailed"
      using that(3) by (simp add: updateOrderStatus_def)
    then show ?thesis
      using lookup_found [OF that(2) that(1)] sw ne sid
      by (simp add: webhook_def webhook_async_def with_items_def)
  qed
  show ?thesis using 1 2 3 4 rows_after_set_status by blast
qed

theorem async_payment_failed_pending_witness:
  "rows_of_session (demo_store ''cs_1'' ''shipped'' False) ''cs_1'' = [demo_row ''cs_1'' ''shipped'']
   \<and> rows_of_session (empty_store False) ''cs_1'' = []
   \<and> map (\<lambda>r. status (odata r))
        (orders (snd (webhook (quiet ''paid'') (demo_store ''cs_1'' ''shipped'' False)
           (Some (async_failed (demo_session ''cs_1'' ''unpaid'')))))) = [''pending'']
   \<and> webhook (quiet ''paid'') (empty_store False)
        (Some (async_failed (demo_session ''cs_1'' ''unpaid''))) = (Received, empty_store False)
   \<and> webhook ((quiet ''paid'')\<lparr>update_fails := True\<rparr>) (demo_store ''cs_1'' ''shipped'' False)
        (Some (async_failed (demo_session ''cs_1'' ''unpaid'')))
       = (WebhookError UpdateStatusFailed, demo_store ''cs_1'' ''shipped'' False)"
proof -
  let ?ev = "async_failed (demo_session ''cs_1'' ''unpaid'')"
  let ?d = "demo_store ''cs_1'' ''shipped'' False"
  have ev: "event_type ?ev = ''checkout.session.async_payment_failed''"
    by (simp add: async_failed_def)
  have sid: "session_id (event_session ?ev) = ''cs_1''"
    by (simp add: async_failed_def demo_session_def)
  have r: "rows_of_session ?d ''cs_1'' = [demo_row ''cs_1'' ''shipped'']"
    by (simp add: rows_of_session_def demo_store_def demo_row_def)
  have e: "rows_of_session (empty_store False) ''cs_1'' = []"
    by (simp add: rows_of_session_def empty_store_def)
  have d: "distinct (map order_id (orders ?d))"
    by (simp add: demo_store_def)
  have q: "\<not> lookup_fails (quiet ''paid'')" "\<not> update_fails (quiet ''paid'')"
    "\<not> lookup_fails ((quiet ''paid'')\<lparr>update_fails := True\<rparr>)"
    "update_fails ((quiet ''paid'')\<lparr>update_fails := True\<rparr>)"
    by (simp_all add: quiet_def)
  show ?thesis
    using async_payment_failed_pending [OF ev sid, where w = ?d and x = "quiet ''paid''"
        and r = "demo_row ''cs_1'' ''shipped''"]
      async_payment_failed_pending [OF ev sid, where w = "empty_store False" and x = "quiet ''paid''"]
      async_payment_failed_pending [OF ev sid, where w = ?d
        and x = "(quiet ''paid'')\<lparr>update_fails := True\<rparr>" and r = "demo_row ''cs_1'' ''shipped''"]
      r e d q
    by (simp add: set_status_def demo_store_def demo_row_def)
qed

text \<open>
  C7 as the specification states it sets the status for every session that has an order.
  On the store with two orders of \<^verbatim>\<open>cs_2\<close> the lookup asks for a single row and gets
  none, so the event is acknowledged and both orders keep their status; and when the
  lookup fails, a shipped order stays shipped.
\<close>

theorem async_failed_unwritten_counterexample:
  "length (rows_of_session doubled_store ''cs_2'') = 2
   \<and> webhook (quiet ''paid'') doubled_store (Some (async_failed (demo_session ''cs_2'' ''unpaid'')))
       = (Received, doubled_store)
   \<and> map (\<lambda>r. status (odata r)) (orders doubled_store) = [''processing'', ''processing'']
   \<and> rows_of_session (demo_store ''cs_1'' ''shipped'' False) ''cs_1''
       = [demo_row ''cs_1'' ''shipped'']
   \<and> webhook ((quiet ''paid'')\<lparr>lookup_fails := True\<rparr>) (demo_store ''cs_1'' ''shipped'' False)
        (Some (async_failed (demo_session ''cs_1'' ''unpaid'')))
       = (Received, demo_store ''cs_1'' ''shipped'' False)"
  by code_simp

lemma writes_only_same: "orders w' = orders w \<Longrightarrow> writes_only w w'"
  by (simp add: writes_only_def list_all_iff)

lemma writes_only_orders: "orders w'' = orders w' \<Longrightarrow> writes_only w w' \<Longrightarrow> writes_only w w''"
  by (simp add: writes_only_def)

lemma writes_only_create:
  assumes "createOrder x w (orderData_of md cust sid) = Inr (order, w1)"
  shows "writes_only w w1"
  using createOrder_Inr [OF assms]
  by (simp add: writes_only_def list_all_iff written_status_def)

lemma updateData_status: "status (updateData st sid od) = st"
  by (simp add: updateData_def)

lemma writes_only_update:
  assumes "updateOrderStatus x w i st sid = Inr w1" and "written_status st"
  shows "writes_only w w1"
proof -
  have "orders w1 = map (\<lambda>r. if order_id r = i then r\<lparr>odata := updateData st sid (odata r)\<rparr> else r) (orders w)"
    using assms(1) by (auto simp: updateOrderStatus_def split: if_splits)
  then show ?thesis using assms(2)
    by (auto simp: writes_only_def list_all_iff updateData_status)
qed

lemma writes_only_completed: "writes_only w (snd (completed_after_lookup x w s ex))"
proof (cases ex)
  case None
  show ?thesis
  proof (cases "metadata s")
    case N: None
    then show ?thesis using None by (simp add: completed_after_lookup_def writes_only_same)
  next
    case (Some md)
    show ?thesis
    proof (cases "createOrder x w (orderData_of md (customer_email s) (session_id s))")
      case (Inl e)
      then show ?thesis using None Some by (simp add: completed_after_lookup_def writes_only_same)
    next
      case (Inr p)
      obtain order w1 where p: "p = (order, w1)" by (cases p)
      have "writes_only w w1" using writes_only_create Inr p by simp
      then have "writes_only w (webhook_email x (webhook_items x w1 md order) order (session_id s))"
        by (rule writes_only_orders [rotated]) (simp add: webhook_email_frame webhook_items_frame)
      then show ?thesis using None Some Inr p by (simp add: completed_after_lookup_def)
    qed
  qed
next
  case (Some order)
  show ?thesis
  proof (cases "updateOrderStatus x w (order_id (fst order)) ''processing'' (session_id s)")
    case (Inl e)
    then show ?thesis using Some by (simp add: completed_after_lookup_def writes_only_same)
  next
    case (Inr w1)
    then have "writes_only w w1" by (rule writes_only_update) (simp add: written_status_def)
    then show ?thesis using Some Inr by (simp add: completed_after_lookup_def writes_only_same)
  qed
qed

lemma writes_only_async:
  assumes "written_status st"
  shows "writes_only w (snd (webhook_async x w s st))"
proof (cases "getOrderBySessionId x w (session_id s)")
  case None
  then show ?thesis by (simp add: webhook_async_def writes_only_same)
next
  case (Some order)
  show ?thesis
  proof (cases "updateOrderStatus x w (order_id (fst order)) st (session_id s)")
    case (Inl e)
    then show ?thesis using Some by (simp add: webhook_async_def writes_only_same)
  next
    case (Inr w1)
    then have "writes_only w w1" using assms by (rule writes_only_update)
    then show ?thesis using Some Inr by (simp add: webhook_async_def)
  qed
qed

lemma writes_only_webhook: "writes_only w (snd (webhook x w body))"
proof -
  have "writes_only w (snd (webhook_switch x w ev))" for ev
    using writes_only_completed [of w x "event_session ev"]
      writes_only_async [of "''processing''" w x "event_session ev"]
      writes_only_async [of "''pending''" w x "event_session ev"]
    by (simp add: webhook_switch_def webhook_completed_def writes_only_same written_status_def)
  then show ?thesis
    by (simp add: webhook_def writes_only_same split: option.splits prod.splits) (metis snd_conv)
qed

lemma writes_only_callback_after: "writes_only w (snd (callback_after_lookup x w sid ex))"
proof -
  have "writes_only w (callback_email x (snd (callback_items x w1 md order)) full s sid)"
    if "createOrder x w (orderData_of md (customer_email s) sid) = Inr (order, w1)"
    for md s order w1 full
    using writes_only_create [OF that]
    by (rule writes_only_orders [rotated]) (simp add: callback_email_frame callback_items_frame)
  then show ?thesis
    by (simp add: callback_after_lookup_def writes_only_same split: option.splits sum.splits prod.splits)
      (metis snd_conv)
qed

lemma writes_only_handle: "writes_only w (snd (handle x w req))"
proof (cases req)
  case (Webhook body)
  then show ?thesis by (simp add: writes_only_webhook)
next
  case (CreateOrderFromSession body)
  then show ?thesis
    by (simp add: create_order_from_session_def writes_only_callback_after writes_only_same
        split: option.splits)
qed

text \<open>
  C4 (as the code has it). For a session that has an order: create-order-from-session
  answers with that order and writes nothing; a paid \<^verbatim>\<open>checkout.session.completed\<close>
  event writes nothing when the status is \<^verbatim>\<open>processing\<close> and otherwise sets the status
  to \<^verbatim>\<open>processing\<close>, whatever it was. Whatever the request, a row it leaves in the
  orders table was there before or has the status \<^verbatim>\<open>processing\<close> or \<^verbatim>\<open>pending\<close>.
\<close>

theorem existing_order_status:
  assumes d: "distinct (map order_id (orders w))"
    and r: "rows_of_session w sid = [r]"
    and l: "\<not> lookup_fails x"
    and ne: "sid \<noteq> []"
    and s: "session_id s = sid" "payment_status s = ''paid''"
  shows "create_order_from_session x w (Some sid) = (OrderAlreadyCreated (with_items w r), w)
       \<and> (status (odata r) = ''processing'' \<longrightarrow> webhook x w (Some (completed s)) = (Received, w))
       \<and> (status (odata r) \<noteq> ''processing'' \<and> \<not> update_fails x \<longrightarrow>
            webhook x w (Some (completed s))
              = (Received, w\<lparr>orders := set_status (order_id r) ''processing'' (orders w)\<rparr>))
       \<and> writes_only w0 (snd (handle x0 w0 req))"
proof -
  note f = lookup_found [OF l r]
  have 1: "create_order_from_session x w (Some sid) = (OrderAlreadyCreated (with_items w r), w)"
    using f ne by (simp add: create_order_from_session_def or_null_def callback_after_lookup_def)
  have sw: "webhook x w (Some (completed s)) =
              (case completed_after_lookup x w s (Some (with_items w r)) of
                 (None, w') \<Rightarrow> (Received, w') | (Some e, w') \<Rightarrow> (WebhookError e, w'))"
    using f s by (simp add: webhook_def completed_def webhook_switch_def webhook_completed_def)
  have 2: "webhook x w (Some (completed s)) = (Received, w)" if "status (odata r) = ''processing''"
    using sw that by (simp add: completed_after_lookup_def with_items_def)
  have 3: "webhook x w (Some (completed s))
             = (Received, w\<lparr>orders := set_status (order_id r) ''processing'' (orders w)\<rparr>)"
    if "status (odata r) \<noteq> ''processing''" "\<not> update_fails x"
    using sw that(1) update_found [OF d r that(2), of "''processing''"] s
    by (simp add: completed_after_lookup_def with_items_def)
  show ?thesis using 1 2 3 writes_only_handle by blast
qed

theorem existing_order_status_witness:
  "rows_of_session (demo_store ''cs_1'' ''shipped'' False) ''cs_1'' = [demo_row ''cs_1'' ''shipped'']
   \<and> status (odata (demo_row ''cs_1'' ''shipped'')) \<noteq> ''processing''
   \<and> fst (create_order_from_session (quiet ''paid'') (demo_store ''cs_1'' ''shipped'' False) (Some ''cs_1''))
       = OrderAlreadyCreated (with_items (demo_store ''cs_1'' ''shipped'' False) (demo_row ''cs_1'' ''shipped''))
   \<and> orders (snd (webhook (quiet ''paid'') (demo_store ''cs_1'' ''shipped'' False)
                     (Some (completed (demo_session ''cs_1'' ''paid'')))))
       = [demo_row ''cs_1'' ''processing'']"
proof -
  let ?w = "demo_store ''cs_1'' ''shipped'' False"
  have d: "distinct (map order_id (orders ?w))" by (simp add: demo_store_def)
  have r: "rows_of_session ?w ''cs_1'' = [demo_row ''cs_1'' ''shipped'']"
    by (simp add: rows_of_session_def demo_store_def demo_row_def)
  have q: "\<not> lookup_fails (quiet ''paid'')" "\<not> update_fails (quiet ''paid'')"
    by (simp_all add: quiet_def)
  have ne: "''cs_1'' \<noteq> []" by simp
  have s: "session_id (demo_session ''cs_1'' ''paid'') = ''cs_1''"
    "payment_status (demo_session ''cs_1'' ''paid'') = ''paid''"
    by (simp_all add: demo_session_def)
  have st: "status (odata (demo_row ''cs_1'' ''shipped'')) \<noteq> ''processing''"
    by (simp add: demo_row_def)
  have u: "set_status (order_id (demo_row ''cs_1'' ''shipped'')) ''processing'' (orders ?w)
             = [demo_row ''cs_1'' ''processing'']"
    by (simp add: set_status_def demo_store_def demo_row_def)
  show ?thesis
    using existing_order_status [OF d r q(1) ne s] r st q(2) u by simp
qed

text \<open>
  C4 as the specification states it leaves a status beyond \<^verbatim>\<open>pending\<close> alone. A
  repeated \<^verbatim>\<open>checkout.session.completed\<close> event for a shipped order sets it back to
  \<^verbatim>\<open>processing\<close>.
\<close>

theorem shipped_order_reset_counterexample:
  "map (\<lambda>r. status (odata r)) (orders (demo_store ''cs_1'' ''shipped'' False)) = [''shipped'']
   \<and> map (\<lambda>r. status (odata r))
        (orders (snd (webhook (quiet ''paid'') (demo_store ''cs_1'' ''shipped'' False)
                        (Some (completed (demo_session ''cs_1'' ''paid''))))))
       = [''processing'']"
  by (simp add: store_defs route_defs demo_defs)

section \<open>Signals for a session that is not paid\<close>

text \<open>
  C3 (as the code has it). A \<^verbatim>\<open>checkout.session.completed\<close> event whose session is not
  paid is acknowledged and writes nothing. create-order-from-session looks for the order
  first: without an order and with a session the processor reports as not paid it answers
  400 \<^verbatim>\<open>Payment not completed\<close> and writes nothing; with an order it answers with that
  order, whatever the payment status.
\<close>

theorem unpaid_signal_writes_nothing:
  assumes "payment_status s \<noteq> ''paid''"
  shows "webhook x w (Some (completed s)) = (Received, w)
       \<and> (sid \<noteq> [] \<and> stripe_session x sid = Some s \<and> getOrderBySessionId x w sid = None \<longrightarrow>
            create_order_from_session x w (Some sid) = (BadRequest ''Payment not completed'', w))
       \<and> (sid \<noteq> [] \<and> getOrderBySessionId x w sid = Some existing \<longrightarrow>
            create_order_from_session x w (Some sid) = (OrderAlreadyCreated existing, w))"
  using assms
  by (simp add: webhook_def completed_def webhook_switch_def webhook_completed_def
      create_order_from_session_def or_null_def callback_after_lookup_def)

theorem unpaid_signal_writes_nothing_witness:
  "payment_status (demo_session ''cs_1'' ''unpaid'') \<noteq> ''paid''
   \<and> webhook (quiet ''unpaid'') (empty_store False) (Some (completed (demo_session ''cs_1'' ''unpaid'')))
       = (Received, empty_store False)
   \<and> create_order_from_session (quiet ''unpaid'') (empty_store False) (Some ''cs_1'')
       = (BadRequest ''Payment not completed'', empty_store False)
   \<and> create_order_from_session (quiet ''unpaid'') (demo_store ''cs_1'' ''processing'' False) (Some ''cs_1'')
       = (OrderAlreadyCreated (with_items (demo_store ''cs_1'' ''processing'' False)
                                 (demo_row ''cs_1'' ''processing'')),
          demo_store ''cs_1'' ''processing'' False)"
proof -
  let ?s = "demo_session ''cs_1'' ''unpaid''"
  let ?x = "quiet ''unpaid''"
  let ?w = "demo_store ''cs_1'' ''processing'' False"
  have u: "payment_status ?s \<noteq> ''paid''" by (simp add: demo_session_def)
  have ne: "''cs_1'' \<noteq> []" by simp
  have g: "stripe_session ?x ''cs_1'' = Some ?s" by (simp add: quiet_def)
  have n: "getOrderBySessionId ?x (empty_store False) ''cs_1'' = None"
    by (simp add: getOrderBySessionId_def rows_of_session_def single_def empty_store_def)
  have e: "getOrderBySessionId ?x ?w ''cs_1'' = Some (with_items ?w (demo_row ''cs_1'' ''processing''))"
    by (simp add: getOrderBySessionId_def rows_of_session_def single_def demo_store_def demo_row_def
        quiet_def)
  show ?thesis
    using u ne g n e
      unpaid_signal_writes_nothing [OF u, of ?x "empty_store False" "''cs_1''"]
      unpaid_signal_writes_nothing [OF u, of ?x ?w "''cs_1''" "with_items ?w (demo_row ''cs_1'' ''processing'')"]
    by simp
qed

text \<open>
  C3 as the specification states it puts the payment check first and makes every trigger
  fail on an unpaid session. With an order in the store, create-order-from-session
  succeeds although the processor reports the session as unpaid; and the webhook
  acknowledges an unpaid event instead of failing.
\<close>

theorem unpaid_existing_order_counterexample:
  "map_option payment_status (stripe_session (quiet ''unpaid'') ''cs_1'') = Some ''unpaid''
   \<and> create_order_from_session (quiet ''unpaid'') (demo_store ''cs_1'' ''processing'' False) (Some ''cs_1'')
       = (OrderAlreadyCreated (with_items (demo_store ''cs_1'' ''processing'' False)
                                 (demo_row ''cs_1'' ''processing'')),
          demo_store ''cs_1'' ''processing'' False)
   \<and> webhook (quiet ''unpaid'') (empty_store False) (Some (completed (demo_session ''cs_1'' ''unpaid'')))
       = (Received, empty_store False)"
  by (simp add: store_defs route_defs demo_defs)

section \<open>A failing order insert\<close>

text \<open>
  C2 (as the code has it). When the order insert fails, for a uniqueness violation or any
  other reason, after the lookup has found no order, the failure is the answer:
  create-order-from-session responds 500, the webhook responds 400, the order is not read
  again and nothing is written.
\<close>

theorem insert_failure_surfaces:
  assumes ins: "createOrder x w (orderData_of md (customer_email s) sid) = Inl e"
    and s: "stripe_session x sid = Some s" "session_id s = sid" "payment_status s = ''paid''"
      "metadata s = Some md"
  shows "callback_after_lookup x w sid None = (ServerError e, w)
       \<and> completed_after_lookup x w s None = (Some e, w)
       \<and> (sid \<noteq> [] \<and> getOrderBySessionId x w sid = None \<longrightarrow>
            create_order_from_session x w (Some sid) = (ServerError e, w)
            \<and> webhook x w (Some (completed s)) = (WebhookError e, w))"
  using assms
  by (simp add: callback_after_lookup_def completed_after_lookup_def create_order_from_session_def
      or_null_def webhook_def completed_def webhook_switch_def webhook_completed_def)

theorem insert_failure_surfaces_witness:
  "createOrder ((quiet ''paid'')\<lparr>lookup_fails := True\<rparr>) (demo_store ''cs_2'' ''processing'' True)
       (orderData_of demo_md None ''cs_2'') = Inl CreateOrderFailed
   \<and> getOrderBySessionId ((quiet ''paid'')\<lparr>lookup_fails := True\<rparr>) (demo_store ''cs_2'' ''processing'' True) ''cs_2'' = None
   \<and> create_order_from_session ((quiet ''paid'')\<lparr>lookup_fails := True\<rparr>)
        (demo_store ''cs_2'' ''processing'' True) (Some ''cs_2'')
       = (ServerError CreateOrderFailed, demo_store ''cs_2'' ''processing'' True)
   \<and> webhook ((quiet ''paid'')\<lparr>lookup_fails := True\<rparr>) (demo_store ''cs_2'' ''processing'' True)
        (Some (completed (demo_session ''cs_2'' ''paid'')))
       = (WebhookError CreateOrderFailed, demo_store ''cs_2'' ''processing'' True)"
proof -
  let ?x = "(quiet ''paid'')\<lparr>lookup_fails := True\<rparr>"
  let ?w = "demo_store ''cs_2'' ''processing'' True"
  let ?s = "demo_session ''cs_2'' ''paid''"
  have ins: "createOrder ?x ?w (orderData_of demo_md (customer_email ?s) ''cs_2'') = Inl CreateOrderFailed"
    by (simp add: createOrder_def session_taken_def demo_store_def demo_row_def)
  have s: "stripe_session ?x ''cs_2'' = Some ?s" "session_id ?s = ''cs_2''"
    "payment_status ?s = ''paid''" "metadata ?s = Some demo_md"
    by (simp_all add: quiet_def demo_session_def)
  have n: "getOrderBySessionId ?x ?w ''cs_2'' = None"
    by (simp add: getOrderBySessionId_def)
  have c: "customer_email ?s = None" by (simp add: demo_session_def)
  show ?thesis
    using insert_failure_surfaces [OF ins s] ins n c by simp
qed

text \<open>
  C2 as the specification states it turns a uniqueness violation into the duplicate path.
  Two requests for \<^verbatim>\<open>cs_2\<close> on a store that enforces uniqueness: the second looks the
  order up before the first has inserted it, and continues after the first has finished.
  Its insert is rejected and the rejection is what the caller gets, on both routes.
\<close>

theorem duplicate_insert_error_counterexample:
  "getOrderBySessionId (quiet ''paid'') (empty_store True) ''cs_2'' = None
   \<and> length (rows_of_session (race_store True) ''cs_2'') = 1
   \<and> callback_after_lookup (quiet ''paid'') (race_store True) ''cs_2''
        (getOrderBySessionId (quiet ''paid'') (empty_store True) ''cs_2'')
       = (ServerError CreateOrderFailed, race_store True)
   \<and> completed_after_lookup (quiet ''paid'') (race_store True) (demo_session ''cs_2'' ''paid'')
        (getOrderBySessionId (quiet ''paid'') (empty_store True) ''cs_2'')
       = (Some CreateOrderFailed, race_store True)"
  by code_simp

section \<open>The order the confirmation email is given\<close>

text \<open>
  On the webhook path the email is asked for with the inserted row and no items, whatever
  the input. On the create-order-from-session path, when the item insert and the fetch
  succeed, it is asked for with the items just written.
\<close>

lemma webhook_mail_order:
  assumes sig: "fresh_paid_signal x w sid s md"
    and ins: "createOrder x w (orderData_of md (customer_email s) sid) = Inr (order, w1)"
    and em: "email (shipping (orderData_of md (customer_email s) sid)) \<noteq> []"
  shows "emails (snd (webhook x w (Some (completed s))))
           = emails w @ [\<lparr>mail_order = (fst order, None), mail_session = sid,
                           mail_sent = (\<not> email_fails x)\<rparr>]"
proof -
  note c = createOrder_Inr [OF ins]
  have "emails (webhook_email x (webhook_items x w1 md order) order sid)
          = emails w1 @ [\<lparr>mail_order = order, mail_session = sid, mail_sent = (\<not> email_fails x)\<rparr>]"
    using em c(1) by (simp add: webhook_email_emails webhook_items_frame)
  then show ?thesis using webhook_path [OF sig] ins c by simp
qed

lemma callback_mail_order:
  assumes ok: "store_ok w"
    and sig: "fresh_paid_signal x w sid s md"
    and ins: "createOrder x w (orderData_of md (customer_email s) sid) = Inr (order, w1)"
    and its: "itemsData x md = Some its" "\<not> insert_items_fails x" "\<not> fetch_fails x"
    and em: "email (shipping (orderData_of md (customer_email s) sid)) \<noteq> []"
  shows "emails (snd (create_order_from_session x w (Some sid)))
           = emails w @ [\<lparr>mail_order = (fst order, Some (orderItems_of (next_id w) its)),
                           mail_session = sid, mail_sent = (\<not> email_fails x)\<rparr>]"
proof -
  note c = createOrder_Inr [OF ins]
  define row where "row = \<lparr>order_id = next_id w, odata = orderData_of md (customer_email s) sid\<rparr>"
  define w2 where "w2 = w1\<lparr>order_items := order_items w1 @ orderItems_of (next_id w) its\<rparr>"
  have old: "\<forall>r\<in>set (orders w). \<not> order_id r = next_id w"
    "\<forall>it\<in>set (order_items w). \<not> oi_order_id it = next_id w"
    using ok by (auto simp: store_ok_def ids_fresh_def list_all_iff)
  have "filter (\<lambda>r. order_id r = next_id w) (orders w) = []"
    using old(1) by (rule filter_False)
  then have rows: "rows_of_id w2 (next_id w) = [row]"
    using c(2) by (simp add: rows_of_id_def w2_def row_def)
  have "filter (\<lambda>it. oi_order_id it = next_id w) (order_items w) = []"
    using old(2) by (rule filter_False)
  moreover have "filter (\<lambda>it. oi_order_id it = next_id w) (orderItems_of (next_id w) its)
                   = orderItems_of (next_id w) its"
    by (rule filter_True) (simp add: orderItems_of_def)
  ultimately have items: "items_of_order w2 (next_id w) = orderItems_of (next_id w) its"
    using c(2) by (simp add: items_of_order_def w2_def)
  have fetch: "getOrderById x w2 (next_id w) = Some (row, Some (orderItems_of (next_id w) its))"
    using its(3) rows items by (simp add: getOrderById_def single_def with_items_def row_def)
  have cb: "callback_items x w1 md order = ((row, Some (orderItems_of (next_id w) its)), w2)"
    using its(1,2) fetch c(1)
    by (simp add: callback_items_def addOrderItems_def w2_def row_def)
  have "emails (callback_email x w2 (row, Some (orderItems_of (next_id w) its)) s sid)
          = emails w2 @ [\<lparr>mail_order = (row, Some (orderItems_of (next_id w) its)),
                          mail_session = sid, mail_sent = (\<not> email_fails x)\<rparr>]"
    using em by (simp add: callback_email_emails row_def)
  then show ?thesis
    using callback_path [OF sig] ins cb c by (simp add: w2_def row_def)
qed

text \<open>
  C5. The webhook inserts the items before it asks for the email, but it passes the order
  as \<^verbatim>\<open>createOrder\<close> returned it, without the items: for the example session the item is
  in the store and the email lists no line. create-order-from-session, on the same input,
  fetches the order again and the email lists the item.
\<close>

theorem webhook_mail_without_items:
  "order_items (snd (webhook (quiet ''paid'') (empty_store False)
                       (Some (completed (demo_session ''cs_1'' ''paid'')))))
     = [\<lparr>oi_order_id = 0, oi_product_id = ''p1'', oi_quantity = 2, oi_unit_price = 900\<rparr>]
   \<and> map mail_lines (emails (snd (webhook (quiet ''paid'') (empty_store False)
                                    (Some (completed (demo_session ''cs_1'' ''paid''))))))
     = [Nil]
   \<and> map mail_lines (emails (snd (create_order_from_session (quiet ''paid'') (empty_store False)
                                    (Some ''cs_1''))))
     = [orderItems_of 0 [\<lparr>mi_product_id = ''p1'', mi_quantity = 2, mi_unit_price = 900\<rparr>]]"
  by code_simp

section \<open>One order per session\<close>

subsection \<open>Session ids in the orders table\<close>

lemma keys_member:
  "k \<in> set (List.map_filter f rs) \<longleftrightarrow> (\<exists>r\<in>set rs. f r = Some k)"
  by (induction rs) (auto split: option.splits)

lemma keys_distinct_count:
  "distinct (List.map_filter f rs) \<Longrightarrow> length (filter (\<lambda>r. f r = Some k) rs) \<le> 1"
proof (induction rs)
  case Nil
  then show ?case by simp
next
  case (Cons a rs)
  show ?case
  proof (cases "f a = Some k")
    case True
    then have "k \<notin> set (List.map_filter f rs)" using Cons.prems by simp
    then have "\<forall>r\<in>set rs. \<not> f r = Some k" by (simp add: keys_member)
    then have "filter (\<lambda>r. f r = Some k) rs = []" by (rule filter_False)
    then show ?thesis using True by simp
  next
    case False
    have "distinct (List.map_filter f rs)"
      using Cons.prems by (simp split: option.splits)
    then show ?thesis using Cons.IH False by simp
  qed
qed

lemma keys_append:
  "List.map_filter f (rs @ ss) = List.map_filter f rs @ List.map_filter f ss"
  by (simp add: List.map_filter_def)

lemma rows_at_most_one:
  "store_ok w \<Longrightarrow> length (rows_of_session w sid) \<le> 1"
  unfolding store_ok_def session_keys_def rows_of_session_def
  using keys_distinct_count [of "\<lambda>r. stripe_session_id (odata r)" "orders w" sid] by simp

lemma no_rows_no_key:
  "rows_of_session w sid = [] \<Longrightarrow> sid \<notin> set (session_keys w)"
  by (auto simp: rows_of_session_def session_keys_def keys_member filter_empty_conv)

lemma set_status_ids: "map order_id (set_status i st rs) = map order_id rs"
  by (simp add: set_status_def comp_def cong: if_cong)

lemma set_status_keys:
  "List.map_filter (\<lambda>r. stripe_session_id (odata r)) (set_status i st rs)
     = List.map_filter (\<lambda>r. stripe_session_id (odata r)) rs"
  by (induction rs) (simp_all add: set_status_def split: option.splits)

lemma set_status_all_ids:
  "list_all (\<lambda>r. P (order_id r)) (set_status i st rs) = list_all (\<lambda>r. P (order_id r)) rs"
  by (induction rs) (simp_all add: set_status_def)

lemma set_status_rows:
  "filter (\<lambda>r. stripe_session_id (odata r) = Some sid) (set_status i st rs)
     = set_status i st (filter (\<lambda>r. stripe_session_id (odata r) = Some sid) rs)"
  by (induction rs) (simp_all add: set_status_def)

lemma items_written_ids: "it \<in> set (items_written x md i) \<Longrightarrow> oi_order_id it = i"
  by (auto simp: items_written_def orderItems_of_def split: option.splits if_splits)

lemma items_written_cases:
  "items_written x md i = [] \<or> (\<exists>its. itemsData x md = Some its \<and> items_written x md i = orderItems_of i its)"
  by (simp add: items_written_def split: option.splits)

subsection \<open>Every request is a step, and steps keep the store well formed\<close>

lemma step_store_ok:
  assumes ok: "store_ok w" and st: "step x w w'"
  shows "store_ok w'"
  using st
proof cases
  case same
  then show ?thesis using ok by (simp add: store_ok_def ids_fresh_def session_keys_def)
next
  case (restatus sid r st)
  then show ?thesis using ok
    by (simp add: store_ok_def ids_fresh_def session_keys_def set_status_ids set_status_keys
        set_status_all_ids [where P = "\<lambda>i. i < next_id w"])
next
  case (create sid md cust)
  have old: "distinct (map order_id (orders w))" "\<forall>r\<in>set (orders w). order_id r < next_id w"
    "\<forall>it\<in>set (order_items w). oi_order_id it < next_id w" "distinct (session_keys w)"
    using ok by (simp_all add: store_ok_def ids_fresh_def list_all_iff)
  have fresh: "next_id w \<notin> order_id ` set (orders w)"
    using old(2) by auto
  have key: "sid \<notin> set (session_keys w)"
    using create(1) by (rule no_rows_no_key)
  have 1: "distinct (map order_id (orders w'))"
    using old(1) fresh create(2) by simp
  have 2: "\<forall>r\<in>set (orders w'). order_id r < next_id w'"
    using old(2) create(2,4) by (simp add: less_SucI)
  have 3: "\<forall>it\<in>set (order_items w'). oi_order_id it < next_id w'"
  proof
    fix it assume "it \<in> set (order_items w')"
    then have "it \<in> set (order_items w) \<or> it \<in> set (items_written x md (next_id w))"
      using create(3) by simp
    then show "oi_order_id it < next_id w'"
      using old(3) items_written_ids [of it x md "next_id w"] create(4) by (auto simp: less_SucI)
  qed
  have "session_keys w' = session_keys w @ [sid]"
    using create(2) by (simp add: session_keys_def keys_append orderData_of_def)
  then show ?thesis using old(4) key 1 2 3
    by (simp add: store_ok_def ids_fresh_def list_all_iff)
qed


lemma lookup_cases:
  assumes "store_ok w" and "\<not> lookup_fails x"
  shows "(getOrderBySessionId x w sid = None \<and> rows_of_session w sid = [])
       \<or> (\<exists>r. getOrderBySessionId x w sid = Some (with_items w r) \<and> rows_of_session w sid = [r])"
proof (cases "rows_of_session w sid")
  case Nil
  then show ?thesis by (simp add: lookup_absent)
next
  case (Cons r rs)
  then have "rs = []" using rows_at_most_one [OF assms(1), of sid] by simp
  then show ?thesis using Cons assms(2) by (simp add: lookup_found)
qed

lemma update_step:
  assumes ok: "store_ok w" and r: "rows_of_session w sid = [r]"
  shows "step x w (case updateOrderStatus x w (order_id r) st sid of
                     Inl e \<Rightarrow> w | Inr w1 \<Rightarrow> w1)"
proof (cases "updateOrderStatus x w (order_id r) st sid")
  case (Inl e)
  then show ?thesis by (simp add: step.same)
next
  case (Inr w1)
  then have "\<not> update_fails x" by (auto simp: updateOrderStatus_def split: if_splits)
  moreover have "distinct (map order_id (orders w))"
    using ok by (simp add: store_ok_def ids_fresh_def)
  ultimately have "w1 = w\<lparr>orders := set_status (order_id r) st (orders w)\<rparr>"
    using update_found [OF _ r, of x st] Inr by simp
  then have "step x w w1" using r by (intro step.restatus [where sid = sid and r = r and st = st]) simp_all
  then show ?thesis using Inr by simp
qed

lemma create_step:
  assumes none: "rows_of_session w sid = []"
    and ins: "createOrder x w (orderData_of md cust sid) = Inr (order, w1)"
    and fr: "orders w' = orders w1" "next_id w' = next_id w1"
      "order_items w' = order_items w1 @ items_written x md (order_id (fst order))"
  shows "step x w w'"
proof -
  note c = createOrder_Inr [OF ins]
  show ?thesis
    using none c fr
    by (intro step.create [where sid = sid and md = md and cust = cust]) simp_all
qed

lemma completed_step:
  assumes ok: "store_ok w"
    and ex: "(ex = None \<and> rows_of_session w (session_id s) = [])
           \<or> (\<exists>r. ex = Some (with_items w r) \<and> rows_of_session w (session_id s) = [r])"
  shows "step x w (snd (completed_after_lookup x w s ex))"
proof (cases ex)
  case None
  then have none: "rows_of_session w (session_id s) = []" using ex by simp
  show ?thesis
  proof (cases "metadata s")
    case N: None
    then show ?thesis using None by (simp add: completed_after_lookup_def step.same)
  next
    case (Some md)
    show ?thesis
    proof (cases "createOrder x w (orderData_of md (customer_email s) (session_id s))")
      case (Inl e)
      then show ?thesis using None Some by (simp add: completed_after_lookup_def step.same)
    next
      case (Inr p)
      obtain order w1 where p: "p = (order, w1)" by (cases p)
      have "step x w (webhook_email x (webhook_items x w1 md order) order (session_id s))"
        using Inr p
        by (intro create_step [OF none])
          (simp_all add: webhook_email_frame webhook_items_frame webhook_items_written)
      then show ?thesis using None Some Inr p by (simp add: completed_after_lookup_def)
    qed
  qed
next
  case (Some order)
  then obtain r where r: "order = with_items w r" "rows_of_session w (session_id s) = [r]"
    using ex by auto
  show ?thesis
    using update_step [OF ok r(2), of x "''processing''"] Some r(1)
    by (simp add: completed_after_lookup_def with_items_def step.same split: sum.splits)
qed

lemma async_step:
  assumes ok: "store_ok w" and l: "\<not> lookup_fails x"
  shows "step x w (snd (webhook_async x w s st))"
  using lookup_cases [OF ok l, of "session_id s"]
proof
  assume "getOrderBySessionId x w (session_id s) = None \<and> rows_of_session w (session_id s) = []"
  then show ?thesis by (simp add: webhook_async_def step.same)
next
  assume "\<exists>r. getOrderBySessionId x w (session_id s) = Some (with_items w r)
            \<and> rows_of_session w (session_id s) = [r]"
  then obtain r where r: "getOrderBySessionId x w (session_id s) = Some (with_items w r)"
    "rows_of_session w (session_id s) = [r]" by blast
  show ?thesis
    using update_step [OF ok r(2), of x st] r(1)
    by (simp add: webhook_async_def with_items_def split: sum.splits)
qed

lemma webhook_step:
  assumes ok: "store_ok w" and l: "\<not> lookup_fails x"
  shows "step x w (snd (webhook x w body))"
proof -
  have c: "step x w (snd (completed_after_lookup x w s (getOrderBySessionId x w (session_id s))))" for s
    by (rule completed_step [OF ok lookup_cases [OF ok l]])
  have "step x w (snd (webhook_switch x w ev))" for ev
    using c async_step [OF ok l]
    by (simp add: webhook_switch_def webhook_completed_def step.same)
  then have "step x w (snd (case webhook_switch x w ev of
                              (None, w') \<Rightarrow> (Received, w') | (Some e, w') \<Rightarrow> (WebhookError e, w')))" for ev
    by (cases "webhook_switch x w ev") (simp split: option.splits, metis snd_conv)
  then show ?thesis
    by (simp add: webhook_def step.same split: option.splits)
qed

lemma callback_step:
  assumes ok: "store_ok w" and l: "\<not> lookup_fails x"
  shows "step x w (snd (create_order_from_session x w body))"
proof (cases "or_null body")
  case None
  then show ?thesis by (simp add: create_order_from_session_def step.same)
next
  case (Some sid)
  from lookup_cases [OF ok l, of sid] show ?thesis
  proof
    assume a: "getOrderBySessionId x w sid = None \<and> rows_of_session w sid = []"
    have "step x w (callback_email x (snd (callback_items x w1 md order)) full s sid)"
      if "createOrder x w (orderData_of md (customer_email s) sid) = Inr (order, w1)"
      for md s order w1 full
      using that a
      by (intro create_step [where sid = sid and md = md and cust = "customer_email s"
            and order = order and ?w1.0 = w1])
        (simp_all add: callback_email_frame callback_items_frame callback_items_written)
    then show ?thesis using Some a
      by (simp add: create_order_from_session_def callback_after_lookup_def step.same
          split: option.splits sum.splits prod.splits) (metis snd_conv)
  next
    assume "\<exists>r. getOrderBySessionId x w sid = Some (with_items w r) \<and> rows_of_session w sid = [r]"
    then show ?thesis using Some
      by (auto simp: create_order_from_session_def callback_after_lookup_def step.same)
  qed
qed

lemma handle_step:
  "store_ok w \<Longrightarrow> \<not> lookup_fails x \<Longrightarrow> step x w (snd (handle x w req))"
  by (cases req) (simp_all add: webhook_step callback_step)


subsection \<open>What a step does to the orders and items of one session\<close>

lemma step_existing:
  assumes ok: "store_ok w" and st: "step x w w'" and r: "rows_of_session w sid = [r]"
  shows "map order_id (rows_of_session w' sid) = [order_id r]
       \<and> items_of_session w' sid = items_of_session w sid"
  using st
proof cases
  case same
  then show ?thesis using r by (simp add: rows_of_session_def items_of_session_def)
next
  case (restatus sid0 r0 st0)
  have "rows_of_session w' sid = set_status (order_id r0) st0 (rows_of_session w sid)"
    using restatus(2) by (simp add: rows_of_session_def set_status_rows)
  then have "map order_id (rows_of_session w' sid) = map order_id (rows_of_session w sid)"
    by (simp add: set_status_ids)
  then show ?thesis using r restatus(3) by (simp add: items_of_session_def)
next
  case (create sid0 md cust)
  have ne: "sid0 \<noteq> sid" using create(1) r by auto
  have rows: "rows_of_session w' sid = rows_of_session w sid"
    using create(2) ne by (simp add: rows_of_session_def)
  have "r \<in> set (orders w)" using session_row(1) [OF r] .
  then have "order_id r < next_id w"
    using ok by (simp add: store_ok_def ids_fresh_def list_all_iff)
  then have "filter (\<lambda>it. oi_order_id it = order_id r) (items_written x md (next_id w)) = []"
    by (auto simp: filter_empty_conv dest: items_written_ids)
  then show ?thesis using rows r create(3) by (simp add: items_of_session_def)
qed

lemma step_absent:
  assumes ok: "store_ok w" and st: "step x w w'" and none: "rows_of_session w sid = []"
  shows "items_of_session w' sid = []
       \<or> (\<exists>md its. itemsData x md = Some its
                   \<and> items_of_session w' sid = orderItems_of (next_id w) its)"
  using st
proof cases
  case same
  then show ?thesis using none by (simp add: rows_of_session_def items_of_session_def)
next
  case (restatus sid0 r0 st0)
  have "rows_of_session w' sid = set_status (order_id r0) st0 (rows_of_session w sid)"
    using restatus(2) by (simp add: rows_of_session_def set_status_rows)
  then show ?thesis using none by (simp add: items_of_session_def set_status_def)
next
  case (create sid0 md cust)
  show ?thesis
  proof (cases "sid0 = sid")
    case False
    then have "rows_of_session w' sid = []"
      using create(2) none by (simp add: rows_of_session_def)
    then show ?thesis by (simp add: items_of_session_def)
  next
    case True
    then have rows: "map order_id (rows_of_session w' sid) = [next_id w]"
      using create(2) none by (simp add: rows_of_session_def)
    have "\<forall>it\<in>set (order_items w). \<not> oi_order_id it = next_id w"
      using ok by (auto simp: store_ok_def ids_fresh_def list_all_iff)
    then have old: "filter (\<lambda>it. oi_order_id it = next_id w) (order_items w) = []"
      by (rule filter_False)
    have "\<forall>it\<in>set (items_written x md (next_id w)). oi_order_id it = next_id w"
      by (simp add: items_written_ids)
    then have new: "filter (\<lambda>it. oi_order_id it = next_id w) (items_written x md (next_id w))
                 = items_written x md (next_id w)"
      by (rule filter_True)
    have "items_of_session w' sid = items_written x md (next_id w)"
      using rows create(3) old new by (simp add: items_of_session_def)
    then show ?thesis using items_written_cases [of x md "next_id w"] by auto
  qed
qed

lemma created_items:
  assumes ok: "store_ok w" and none: "rows_of_session w sid = []"
    and o: "orders w' = orders w @ [\<lparr>order_id = next_id w, odata = orderData_of md cust sid\<rparr>]"
    and i: "order_items w' = order_items w @ items_written x md (next_id w)"
  shows "rows_of_session w' sid = [\<lparr>order_id = next_id w, odata = orderData_of md cust sid\<rparr>]
       \<and> items_of_session w' sid = items_written x md (next_id w)"
proof -
  have rows: "rows_of_session w' sid = [\<lparr>order_id = next_id w, odata = orderData_of md cust sid\<rparr>]"
    using o none by (simp add: rows_of_session_def)
  have "\<forall>it\<in>set (order_items w). \<not> oi_order_id it = next_id w"
    using ok by (auto simp: store_ok_def ids_fresh_def list_all_iff)
  then have old: "filter (\<lambda>it. oi_order_id it = next_id w) (order_items w) = []"
    by (rule filter_False)
  have "\<forall>it\<in>set (items_written x md (next_id w)). oi_order_id it = next_id w"
    by (simp add: items_written_ids)
  then have new: "filter (\<lambda>it. oi_order_id it = next_id w) (items_written x md (next_id w))
               = items_written x md (next_id w)"
    by (rule filter_True)
  show ?thesis using rows i old new by (simp add: items_of_session_def)
qed

lemma run_ok:
  "store_ok w \<Longrightarrow> list_all (\<lambda>(x, req). \<not> lookup_fails x) reqs \<Longrightarrow> store_ok (run w reqs)"
proof (induction reqs arbitrary: w)
  case Nil
  then show ?case by simp
next
  case (Cons a reqs)
  obtain x req where a: "a = (x, req)" by (cases a)
  have "store_ok (snd (handle x w req))"
    using Cons.prems a by (intro step_store_ok [OF _ handle_step]) simp_all
  then show ?case using Cons a by simp
qed

lemma run_existing:
  "store_ok w \<Longrightarrow> list_all (\<lambda>(x, req). \<not> lookup_fails x) reqs \<Longrightarrow> rows_of_session w sid = [r] \<Longrightarrow>
     map order_id (rows_of_session (run w reqs) sid) = [order_id r]
     \<and> items_of_session (run w reqs) sid = items_of_session w sid"
proof (induction reqs arbitrary: w r)
  case Nil
  then show ?case by simp
next
  case (Cons a reqs)
  obtain x req where a: "a = (x, req)" by (cases a)
  let ?w = "snd (handle x w req)"
  have st: "step x w ?w" using Cons.prems a by (intro handle_step) simp_all
  have ok: "store_ok ?w" using step_store_ok [OF Cons.prems(1) st] .
  have ex: "map order_id (rows_of_session ?w sid) = [order_id r]"
    "items_of_session ?w sid = items_of_session w sid"
    using step_existing [OF Cons.prems(1) st Cons.prems(3)] by simp_all
  then obtain r' where r': "rows_of_session ?w sid = [r']" "order_id r' = order_id r"
    by (cases "rows_of_session ?w sid") auto
  show ?case
    using Cons.IH [OF ok _ r'(1)] Cons.prems(2) a r'(2) ex(2) by simp
qed

text \<open>
  C1 (as the code has it). Requests are handled one after another, on a store with at most
  one order per session id whose lookups answer. Then the store keeps at most one order
  per session id; a session that has an order keeps that order, and no item is written
  for it any more; create-order-from-session answers with the existing order and writes
  nothing; and a request on a session without an order leaves for that session either no
  item or exactly the items parsed from the metadata, under the id of the new order. The
  request that creates the order of a paid session, on either route, leaves the session
  with that one order and with exactly the \<open>len(items)\<close> items parsed from its metadata
  when the items step succeeds, and with no item when the items step throws.
\<close>

theorem sequential_materialization:
  assumes ok: "store_ok w"
    and answers: "list_all (\<lambda>(x, req). \<not> lookup_fails x) reqs" "\<not> lookup_fails x"
  shows "store_ok (run w reqs)
       \<and> length (rows_of_session (run w reqs) sid) \<le> 1
       \<and> (rows_of_session w sid = [r] \<longrightarrow>
            map order_id (rows_of_session (run w reqs) sid) = [order_id r]
            \<and> items_of_session (run w reqs) sid = items_of_session w sid)
       \<and> (rows_of_session w sid = [r] \<and> sid \<noteq> [] \<longrightarrow>
            create_order_from_session x w (Some sid) = (OrderAlreadyCreated (with_items w r), w))
       \<and> (rows_of_session w sid = [] \<longrightarrow>
            items_of_session (snd (handle x w req)) sid = []
            \<or> (\<exists>md its. itemsData x md = Some its
                  \<and> items_of_session (snd (handle x w req)) sid = orderItems_of (next_id w) its))
       \<and> (fresh_paid_signal x w sid s md
            \<and> createOrder x w (orderData_of md (customer_email s) sid) = Inr (order, w1) \<longrightarrow>
            rows_of_session (snd (create_order_from_session x w (Some sid))) sid = [fst order]
            \<and> rows_of_session (snd (webhook x w (Some (completed s)))) sid = [fst order]
            \<and> (itemsData x md = Some its \<and> \<not> insert_items_fails x \<longrightarrow>
                 items_of_session (snd (create_order_from_session x w (Some sid))) sid
                   = orderItems_of (next_id w) its
                 \<and> items_of_session (snd (webhook x w (Some (completed s)))) sid
                   = orderItems_of (next_id w) its
                 \<and> length (orderItems_of (next_id w) its) = length its)
            \<and> (itemsData x md = None \<or> insert_items_fails x \<longrightarrow>
                 items_of_session (snd (create_order_from_session x w (Some sid))) sid = []
                 \<and> items_of_session (snd (webhook x w (Some (completed s)))) sid = []))"
proof -
  have 1: "store_ok (run w reqs)" using run_ok [OF ok answers(1)] .
  have 2: "length (rows_of_session (run w reqs) sid) \<le> 1" using rows_at_most_one [OF 1] .
  have 3: "map order_id (rows_of_session (run w reqs) sid) = [order_id r]
            \<and> items_of_session (run w reqs) sid = items_of_session w sid"
    if "rows_of_session w sid = [r]"
    using run_existing [OF ok answers(1) that] .
  have 4: "create_order_from_session x w (Some sid) = (OrderAlreadyCreated (with_items w r), w)"
    if "rows_of_session w sid = [r]" "sid \<noteq> []"
    using lookup_found [OF answers(2) that(1)] that(2)
    by (simp add: create_order_from_session_def or_null_def callback_after_lookup_def)
  have 5: "items_of_session (snd (handle x w req)) sid = []
            \<or> (\<exists>md its. itemsData x md = Some its
                  \<and> items_of_session (snd (handle x w req)) sid = orderItems_of (next_id w) its)"
    if "rows_of_session w sid = []"
    using step_absent [OF ok handle_step [OF ok answers(2)] that] .
  have 6: "rows_of_session (snd (create_order_from_session x w (Some sid))) sid = [fst order]
            \<and> rows_of_session (snd (webhook x w (Some (completed s)))) sid = [fst order]
            \<and> (itemsData x md = Some its \<and> \<not> insert_items_fails x \<longrightarrow>
                 items_of_session (snd (create_order_from_session x w (Some sid))) sid
                   = orderItems_of (next_id w) its
                 \<and> items_of_session (snd (webhook x w (Some (completed s)))) sid
                   = orderItems_of (next_id w) its
                 \<and> length (orderItems_of (next_id w) its) = length its)
            \<and> (itemsData x md = None \<or> insert_items_fails x \<longrightarrow>
                 items_of_session (snd (create_order_from_session x w (Some sid))) sid = []
                 \<and> items_of_session (snd (webhook x w (Some (completed s)))) sid = [])"
    if sig: "fresh_paid_signal x w sid s md"
      and ins: "createOrder x w (orderData_of md (customer_email s) sid) = Inr (order, w1)"
  proof -
    have "getOrderBySessionId x w sid = None"
      using sig by (simp add: fresh_paid_signal_def)
    then have none: "rows_of_session w sid = []"
      using lookup_cases [OF ok answers(2), of sid] by auto
    have row: "fst order = \<lparr>order_id = next_id w, odata = orderData_of md (customer_email s) sid\<rparr>"
      using createOrder_Inr(1) [OF ins] by simp
    obtain full wc where c: "create_order_from_session x w (Some sid) = (OrderCreated full, wc)"
      "orders wc = orders w @ [fst order]"
      "order_items wc = order_items w @ items_written x md (next_id w)"
      using created_callback [OF sig ins] by blast
    obtain wh where h: "webhook x w (Some (completed s)) = (Received, wh)"
      "orders wh = orders w @ [fst order]"
      "order_items wh = order_items w @ items_written x md (next_id w)"
      using created_webhook [OF sig ins] by blast
    have ic: "rows_of_session wc sid = [fst order]
                \<and> items_of_session wc sid = items_written x md (next_id w)"
      using created_items [OF ok none _ c(3)] c(2) row by simp
    have ih: "rows_of_session wh sid = [fst order]
                \<and> items_of_session wh sid = items_written x md (next_id w)"
      using created_items [OF ok none _ h(3)] h(2) row by simp
    have w1: "items_written x md (next_id w) = orderItems_of (next_id w) its"
      if "itemsData x md = Some its" "\<not> insert_items_fails x"
      using that by (simp add: items_written_def)
    have w2: "items_written x md (next_id w) = []"
      if "itemsData x md = None \<or> insert_items_fails x"
      using that items_written_fail [of x md "next_id w"] by blast
    have len: "length (orderItems_of (next_id w) its) = length its"
      by (simp add: orderItems_of_def)
    show ?thesis using c(1) h(1) ic ih w1 w2 len by simp
  qed
  show ?thesis using 1 2 3 4 5 6 by blast
qed

theorem sequential_materialization_witness:
  "store_ok (empty_store False) \<and> store_ok (demo_store ''cs_1'' ''processing'' False)
   \<and> list_all (\<lambda>(x, req). \<not> lookup_fails x) demo_requests
   \<and> rows_of_session (empty_store False) ''cs_1'' = []
   \<and> length (rows_of_session (run (empty_store False) demo_requests) ''cs_1'') \<le> 1
   \<and> rows_of_session (demo_store ''cs_1'' ''processing'' False) ''cs_1''
       = [demo_row ''cs_1'' ''processing'']
   \<and> map order_id (rows_of_session (run (demo_store ''cs_1'' ''processing'' False) demo_requests) ''cs_1'')
       = [0]
   \<and> items_of_session (run (demo_store ''cs_1'' ''processing'' False) demo_requests) ''cs_1''
       = items_of_session (demo_store ''cs_1'' ''processing'' False) ''cs_1''
   \<and> create_order_from_session (quiet ''paid'') (demo_store ''cs_1'' ''processing'' False) (Some ''cs_1'')
       = (OrderAlreadyCreated (with_items (demo_store ''cs_1'' ''processing'' False)
                                 (demo_row ''cs_1'' ''processing'')),
          demo_store ''cs_1'' ''processing'' False)
   \<and> fresh_paid_signal (quiet ''paid'') (empty_store False) ''cs_1''
        (demo_session ''cs_1'' ''paid'') demo_md
   \<and> itemsData (quiet ''paid'') demo_md
       = Some [\<lparr>mi_product_id = ''p1'', mi_quantity = 2, mi_unit_price = 900\<rparr>]
   \<and> items_of_session (snd (create_order_from_session (quiet ''paid'') (empty_store False)
                              (Some ''cs_1''))) ''cs_1''
       = [\<lparr>oi_order_id = 0, oi_product_id = ''p1'', oi_quantity = 2, oi_unit_price = 900\<rparr>]
   \<and> items_of_session (snd (webhook (quiet ''paid'') (empty_store False)
                              (Some (completed (demo_session ''cs_1'' ''paid''))))) ''cs_1''
       = [\<lparr>oi_order_id = 0, oi_product_id = ''p1'', oi_quantity = 2, oi_unit_price = 900\<rparr>]
   \<and> items_of_session (snd (create_order_from_session ((quiet ''paid'')\<lparr>insert_items_fails := True\<rparr>)
                              (empty_store False) (Some ''cs_1''))) ''cs_1'' = []"
proof -
  let ?d = "demo_store ''cs_1'' ''processing'' False"
  let ?q = "quiet ''paid''"
  let ?f = "(quiet ''paid'')\<lparr>insert_items_fails := True\<rparr>"
  let ?s = "demo_session ''cs_1'' ''paid''"
  let ?r = "\<lparr>order_id = 0, odata = orderData_of demo_md None ''cs_1''\<rparr>"
  let ?w1 = "(empty_store False)\<lparr>orders := [?r], next_id := 1\<rparr>"
  let ?its = "[\<lparr>mi_product_id = ''p1'', mi_quantity = 2, mi_unit_price = 900\<rparr>]"
  have e: "store_ok (empty_store False)"
    by (simp add: store_ok_def ids_fresh_def session_keys_def empty_store_def)
  have d: "store_ok ?d"
    by (simp add: store_ok_def ids_fresh_def session_keys_def demo_store_def demo_row_def)
  have a: "list_all (\<lambda>(x, req). \<not> lookup_fails x) demo_requests" "\<not> lookup_fails ?q"
    by (simp_all add: demo_requests_def quiet_def)
  have af: "\<not> lookup_fails ?f" by (simp add: quiet_def)
  have n: "rows_of_session (empty_store False) ''cs_1'' = []"
    by (simp add: rows_of_session_def empty_store_def)
  have r: "rows_of_session ?d ''cs_1'' = [demo_row ''cs_1'' ''processing'']"
    by (simp add: rows_of_session_def demo_store_def demo_row_def)
  have i: "order_id (demo_row ''cs_1'' ''processing'') = 0" "''cs_1'' \<noteq> []"
    by (simp_all add: demo_row_def)
  have sig: "fresh_paid_signal ?q (empty_store False) ''cs_1'' ?s demo_md"
    "fresh_paid_signal ?f (empty_store False) ''cs_1'' ?s demo_md"
    by (simp_all add: fresh_paid_signal_def getOrderBySessionId_def rows_of_session_def single_def
        quiet_def empty_store_def demo_session_def)
  have ins: "createOrder ?q (empty_store False) (orderData_of demo_md (customer_email ?s) ''cs_1'')
               = Inr ((?r, None), ?w1)"
    "createOrder ?f (empty_store False) (orderData_of demo_md (customer_email ?s) ''cs_1'')
               = Inr ((?r, None), ?w1)"
    by (simp_all add: createOrder_def quiet_def empty_store_def demo_session_def session_taken_def
        Let_def)
  have its: "itemsData ?q demo_md = Some ?its" "\<not> insert_items_fails ?q" "insert_items_fails ?f"
    by (simp_all add: itemsData_def or_default_def quiet_def demo_md_def demo_json_def
        demo_items_json_def)
  have o: "orderItems_of 0 ?its
             = [\<lparr>oi_order_id = 0, oi_product_id = ''p1'', oi_quantity = 2, oi_unit_price = 900\<rparr>]"
    "next_id (empty_store False) = 0"
    by (simp_all add: orderItems_of_def empty_store_def)
  show ?thesis
    using e d a n r i sig(1) its(1) o
      sequential_materialization [OF e a, where sid = "''cs_1''" and s = ?s and md = demo_md
        and order = "(?r, None)" and ?w1.0 = ?w1 and its = ?its]
      sequential_materialization [OF d a, where sid = "''cs_1''"
        and r = "demo_row ''cs_1'' ''processing''"]
      sequential_materialization [OF e a(1) af, where sid = "''cs_1''" and s = ?s and md = demo_md
        and order = "(?r, None)" and ?w1.0 = ?w1]
      ins its(2,3) sig(2)
    by simp
qed

text \<open>
  C1 as the specification states it covers requests that overlap and promises exactly
  \<open>len(items)\<close> items. Two create-order-from-session requests for \<^verbatim>\<open>cs_2\<close>: the second
  looks the order up before the first has inserted it and continues after the first has
  finished. Without a uniqueness constraint the store ends with two orders and two items
  for a session whose metadata lists one item; with the constraint the second caller gets
  an error, not the existing order. And a single request whose item insert fails leaves
  the session with its order and no item.
\<close>

theorem concurrent_requests_counterexample:
  "getOrderBySessionId (quiet ''paid'') (empty_store False) ''cs_2'' = None
   \<and> length (rows_of_session
        (snd (callback_after_lookup (quiet ''paid'') (race_store False) ''cs_2''
                (getOrderBySessionId (quiet ''paid'') (empty_store False) ''cs_2''))) ''cs_2'') = 2
   \<and> length (items_of_session
        (snd (callback_after_lookup (quiet ''paid'') (race_store False) ''cs_2''
                (getOrderBySessionId (quiet ''paid'') (empty_store False) ''cs_2''))) ''cs_2'') = 2
   \<and> map_option length (itemsData (quiet ''paid'') demo_md) = Some 1
   \<and> fst (callback_after_lookup (quiet ''paid'') (race_store True) ''cs_2''
             (getOrderBySessionId (quiet ''paid'') (empty_store True) ''cs_2''))
       = ServerError CreateOrderFailed
   \<and> length (rows_of_session
        (snd (create_order_from_session ((quiet ''paid'')\<lparr>insert_items_fails := True\<rparr>)
                (empty_store False) (Some ''cs_2''))) ''cs_2'') = 1
   \<and> items_of_session
        (snd (create_order_from_session ((quiet ''paid'')\<lparr>insert_items_fails := True\<rparr>)
                (empty_store False) (Some ''cs_2''))) ''cs_2'' = []"
  by code_simp

end
